theory Spec2Isabelle
  imports Complex_Main "HOL-Library.Sublist"
begin

section \<open>Values, errors and the outside world\<close>

text \<open>
  The module under study is
  \<^verbatim>\<open>train/compute/python/workloads/pytorch/split_table_batched_embedding_bags.py\<close>.
  Python exceptions are values of the type \<open>error\<close>; a computation that may raise
  returns \<open>error + 'a\<close> with \<open>Inl\<close> for the exception.
\<close>

datatype error =
    ValueError string
  | TypeError
  | IndexError
  | KeyError string
  | AttributeError
  | RuntimeError
  | ZeroDivisionError
  | OverflowError
  | LoadError
  | NoReturn  \<comment> \<open>not an exception: the call never returns, so there is no result either\<close>

text \<open>
  A Python \<open>float\<close>. Every finite double is a rational number; the code only compares
  the skew with the constants \<open>0\<close>, \<open>0.5\<close> and \<open>1.0\<close> (and numpy with \<open>1\<close> and
  \<open>1025\<close>), all exact doubles, so the comparisons are comparisons of rationals. Every
  comparison with NaN is false.
\<close>

datatype pyfloat = Finite rat | PosInf | NegInf | NaN

fun float_eq :: "pyfloat \<Rightarrow> rat \<Rightarrow> bool" where
  "float_eq (Finite q) c = (q = c)"
| "float_eq PosInf c = False"
| "float_eq NegInf c = False"
| "float_eq NaN c = False"

fun float_le :: "pyfloat \<Rightarrow> rat \<Rightarrow> bool" where
  "float_le (Finite q) c = (q \<le> c)"
| "float_le PosInf c = False"
| "float_le NegInf c = True"
| "float_le NaN c = False"

fun float_ge :: "pyfloat \<Rightarrow> rat \<Rightarrow> bool" where
  "float_ge (Finite q) c = (c \<le> q)"
| "float_ge PosInf c = True"
| "float_ge NegInf c = False"
| "float_ge NaN c = False"

fun float_gt :: "pyfloat \<Rightarrow> rat \<Rightarrow> bool" where
  "float_gt (Finite q) c = (c < q)"
| "float_gt PosInf c = True"
| "float_gt NegInf c = False"
| "float_gt NaN c = False"

text \<open>Configuration values (what the JSON configuration and the environment hold).\<close>

datatype pyval =
    PNone
  | PBool bool
  | PInt int
  | PStr string
  | PList "pyval list"
  | PIter "pyval list"  \<comment> \<open>an iterable axis: the result of \<open>full_range\<close> or \<open>IterableList\<close>\<close>


text \<open>A \<open>float32\<close> sample of \<open>torch.randn\<close>, kept opaque: only its raw draw is recorded.\<close>

datatype float32 = Float32 nat

text \<open>A tensor, as \<open>get_data\<close> returns it or \<open>torch.load\<close> reads it.\<close>

datatype tensor = IntTensor "int list" | FloatTensor "float32 list"

text \<open>
  The calls that the claims observe: each call of \<open>generate_requests\<close> with its
  arguments, and each call of \<open>torch.load\<close> with its file argument.
\<close>

datatype event =
    GenerateRequests int int int int pyfloat bool
  | TorchLoad pyval

text \<open>
  The world outside the module: the global random generators of torch and of numpy,
  each an infinite stream of raw draws with a read position, whether the rejection loop
  of numpy's Zipf sampler reaches an accepted sample for a given shape with this
  generator, the process environment, the serialized tensors on storage, and the trace
  of observed calls. The streams are arbitrary, so a theorem that holds for every world holds for
  every outcome of the random draws.
\<close>

record world =
  torch_rng :: "nat \<Rightarrow> nat"
  torch_pos :: nat
  numpy_rng :: "nat \<Rightarrow> nat"
  numpy_pos :: nat
  zipf_accepts :: "pyfloat \<Rightarrow> bool"
  environ :: "string \<rightharpoonup> string"
  files :: "string \<rightharpoonup> tensor"
  trace :: "event list"

definition draw_torch :: "nat \<Rightarrow> world \<Rightarrow> nat list \<times> world" where
  "draw_torch n w =
     (map (torch_rng w) [torch_pos w ..< torch_pos w + n], w\<lparr>torch_pos := torch_pos w + n\<rparr>)"

definition draw_numpy :: "nat \<Rightarrow> world \<Rightarrow> nat list \<times> world" where
  "draw_numpy n w =
     (map (numpy_rng w) [numpy_pos w ..< numpy_pos w + n], w\<lparr>numpy_pos := numpy_pos w + n\<rparr>)"

section \<open>The library calls used by the sampler\<close>

text \<open>
  These are functions of torch and numpy, not of the repository; each is modelled by
  its documented contract. A tensor of integers holds \<open>int64\<close> values, and a Python
  integer that enters a call of torch or numpy (a size, a bound, a divisor) is converted
  to a machine integer first. No tensor has \<open>2^63\<close> elements or more.
\<close>

definition scalar_int64 :: "int \<Rightarrow> error + int" where
  \<comment> \<open>a Python integer as the \<open>int64\<close> operand of a tensor operation: a value of
      \<open>[2^63, 2^64)\<close> is taken as an unsigned scalar and wraps to a negative \<open>int64\<close>,
      a value outside \<open>[-2^63, 2^64)\<close> is rejected\<close>
  "scalar_int64 d =
     (if - (2 ^ 63) \<le> d \<and> d < 2 ^ 63 then Inr d
      else if 2 ^ 63 \<le> d \<and> d < 2 ^ 64 then Inr (d - 2 ^ 64)
      else Inl OverflowError)"

definition torch_arange :: "int \<Rightarrow> error + int list" where
  \<comment> \<open>\<open>torch.arange(0, n).long()\<close>; a negative upper bound is rejected, and so is one
      that no tensor can hold.\<close>
  "torch_arange n =
     (if n < 0 \<or> 2 ^ 63 \<le> n then Inl RuntimeError else Inr (map int [0..<nat n]))"

definition tensor_remainder :: "int list \<Rightarrow> int \<Rightarrow> error + int list" where
  \<comment> \<open>\<open>tensor % d\<close>: the divisor becomes an \<open>int64\<close> scalar; the sign of the result
      follows the divisor, as HOL's \<open>mod\<close> on \<open>int\<close>; an integer division by zero
      raises as soon as an element is computed.\<close>
  "tensor_remainder xs d =
     (case scalar_int64 d of
        Inl e \<Rightarrow> Inl e
      | Inr d' \<Rightarrow>
          if d' = 0 \<and> xs \<noteq> [] then Inl ZeroDivisionError
          else Inr (map (\<lambda>x. x mod d') xs))"

definition torch_randint :: "int \<Rightarrow> int \<Rightarrow> int \<Rightarrow> world \<Rightarrow> (error + int list) \<times> world" where
  \<comment> \<open>\<open>torch.randint(low, high, size=(n,))\<close>: \<open>n\<close> integers of \<open>[low, high)\<close>; bounds
      that are no \<open>int64\<close> values are rejected.\<close>
  "torch_randint low high n w =
     (if low < - (2 ^ 63) \<or> 2 ^ 63 \<le> low \<or> high < - (2 ^ 63) \<or> 2 ^ 63 \<le> high
      then (Inl OverflowError, w)
      else if n < 0 \<or> 2 ^ 63 \<le> n \<or> high \<le> low then (Inl RuntimeError, w)
      else case draw_torch (nat n) w of
             (rs, w') \<Rightarrow> (Inr (map (\<lambda>r. low + int r mod (high - low)) rs), w'))"

definition numpy_zipf :: "pyfloat \<Rightarrow> int \<Rightarrow> world \<Rightarrow> (error + int list) \<times> world" where
  \<comment> \<open>\<open>np.random.zipf(a, size=n)\<close>: the shape must exceed 1 (NaN is rejected); the
      samples are positive integers of the C \<open>long\<close> range. Each sample comes from a
      rejection loop: with a shape of 1025 or more (the infinite one included)
      \<open>2 ** (a - 1)\<close> overflows and no sample is ever accepted, so the call does not
      return; for a smaller shape it returns when the loop accepts a sample.\<close>
  "numpy_zipf a n w =
     (if \<not> float_gt a 1 then (Inl (ValueError ''a <= 1 or a is NaN''), w)
      else if n < 0 \<or> 2 ^ 63 \<le> n
        then (Inl (ValueError ''negative or too large dimensions are not allowed''), w)
      else if 0 < n \<and> (float_ge a 1025 \<or> \<not> zipf_accepts w a) then (Inl NoReturn, w)
      else case draw_numpy (nat n) w of
             (rs, w') \<Rightarrow> (Inr (map (\<lambda>r. 1 + int r mod (2 ^ 63 - 1)) rs), w'))"

definition torch_randn :: "int \<Rightarrow> world \<Rightarrow> (error + float32 list) \<times> world" where
  \<comment> \<open>\<open>torch.randn(n, dtype=torch.float32)\<close>\<close>
  "torch_randn n w =
     (if n < 0 \<or> 2 ^ 63 \<le> n then (Inl RuntimeError, w)
      else case draw_torch (nat n) w of (rs, w') \<Rightarrow> (Inr (map Float32 rs), w'))"

definition numpy_ones :: "int \<Rightarrow> error + int list" where
  \<comment> \<open>\<open>np.ones(B, dtype=np.int64)\<close>\<close>
  "numpy_ones n =
     (if n < 0 \<or> 2 ^ 63 \<le> n
      then Inl (ValueError ''negative or too large dimensions are not allowed'')
      else Inr (replicate (nat n) 1))"

fun cumsum_from :: "int \<Rightarrow> int list \<Rightarrow> int list" where
  "cumsum_from acc [] = []"
| "cumsum_from acc (x # xs) = (acc + x) # cumsum_from (acc + x) xs"

definition cumsum :: "int list \<Rightarrow> int list" where
  \<comment> \<open>\<open>np.cumsum\<close>\<close>
  "cumsum xs = cumsum_from 0 xs"

section \<open>The distribution sampler and \<open>generate_requests\<close>\<close>

definition sample_indices :: "int \<Rightarrow> int \<Rightarrow> int \<Rightarrow> pyfloat \<Rightarrow> world \<Rightarrow> (error + int list) \<times> world" where
  \<comment> \<open>lines 113 to 129 of \<open>generate_requests\<close>: the \<open>indices\<close> tensor\<close>
  "sample_indices B L E alpha w =
     (let indices_size = B * L in
      if float_eq alpha 0 then
        (case torch_arange indices_size of
           Inl e \<Rightarrow> (Inl e, w)
         | Inr xs \<Rightarrow> (tensor_remainder xs L, w))
      else if float_le alpha (1 / 2) then
        (case torch_arange indices_size of
           Inl e \<Rightarrow> (Inl e, w)
         | Inr xs \<Rightarrow> (tensor_remainder xs E, w))
      else if float_le alpha 1 then
        torch_randint 0 E indices_size w
      else
        (case numpy_zipf alpha indices_size w of
           (Inl e, w') \<Rightarrow> (Inl e, w')
         | (Inr zs, w') \<Rightarrow> (tensor_remainder zs E, w')))"

definition make_offsets :: "int \<Rightarrow> int \<Rightarrow> int \<Rightarrow> error + int list" where
  \<comment> \<open>lines 131 to 138 of \<open>generate_requests\<close>: the \<open>offsets\<close> tensor\<close>
  "make_offsets B L offset_start =
     (case numpy_ones B of
        Inl e \<Rightarrow> Inl e
      | Inr ones \<Rightarrow>
          (let lengths = map (\<lambda>x. x * L) ones in
           if offset_start = 0 then Inr (cumsum (0 # lengths))
           else Inr (map (\<lambda>c. offset_start + c) (cumsum lengths))))"

definition generate_requests ::
  "int \<Rightarrow> int \<Rightarrow> int \<Rightarrow> int \<Rightarrow> pyfloat \<Rightarrow> bool \<Rightarrow> world
     \<Rightarrow> (error + int list \<times> int list \<times> float32 list option) \<times> world" where
  "generate_requests B L E offset_start alpha weighted w =
     (let w1 = w\<lparr>trace := trace w @ [GenerateRequests B L E offset_start alpha weighted]\<rparr> in
      case sample_indices B L E alpha w1 of
        (Inl e, w2) \<Rightarrow> (Inl e, w2)
      | (Inr indices, w2) \<Rightarrow>
          (case make_offsets B L offset_start of
             Inl e \<Rightarrow> (Inl e, w2)
           | Inr offsets \<Rightarrow>
               if weighted then
                 (case torch_randn (B * L) w2 of
                    (Inl e, w3) \<Rightarrow> (Inl e, w3)
                  | (Inr ws, w3) \<Rightarrow> (Inr (indices, offsets, Some ws), w3))
               else (Inr (indices, offsets, None), w2)))"

section \<open>Reading the configuration\<close>

text \<open>
  An argument of the configuration is a dictionary (\<open>{"type": ..., "value": ...}\<close>,
  with further keys on axis 4); \<open>config["args"]\<close> is the list of them.
\<close>

type_synonym arg = "string \<rightharpoonup> pyval"

record config =
  args :: "arg list"

definition ebind :: "error + 'a \<Rightarrow> ('a \<Rightarrow> error + 'b) \<Rightarrow> error + 'b" where
  "ebind m f = (case m of Inl e \<Rightarrow> Inl e | Inr x \<Rightarrow> f x)"

definition get_item :: "'a list \<Rightarrow> nat \<Rightarrow> error + 'a" where
  \<comment> \<open>\<open>xs[i]\<close> at a non-negative index\<close>
  "get_item xs i = (if i < length xs then Inr (xs ! i) else Inl IndexError)"

definition get_key :: "arg \<Rightarrow> string \<Rightarrow> error + pyval" where
  \<comment> \<open>\<open>d[k]\<close>\<close>
  "get_key d k = (case d k of None \<Rightarrow> Inl (KeyError k) | Some v \<Rightarrow> Inr v)"

definition arg_value :: "config \<Rightarrow> nat \<Rightarrow> error + pyval" where
  \<comment> \<open>\<open>config["args"][i]["value"]\<close>\<close>
  "arg_value cfg i = ebind (get_item (args cfg) i) (\<lambda>a. get_key a ''value'')"

fun as_int :: "pyval \<Rightarrow> error + int" where
  \<comment> \<open>a value used as an integer; \<open>bool\<close> is a subclass of \<open>int\<close>\<close>
  "as_int (PInt i) = Inr i"
| "as_int (PBool b) = Inr (if b then 1 else 0)"
| "as_int v = Inl TypeError"

fun truthy :: "pyval \<Rightarrow> bool" where
  \<comment> \<open>the truth value of \<open>if v:\<close>\<close>
  "truthy PNone = False"
| "truthy (PBool b) = b"
| "truthy (PInt i) = (i \<noteq> 0)"
| "truthy (PStr s) = (s \<noteq> [])"
| "truthy (PList vs) = (vs \<noteq> [])"
| "truthy (PIter vs) = True"

definition genericList_to_list :: "arg \<Rightarrow> error + pyval list" where
  \<comment> \<open>Modelled from the spec: \<open>genericList_to_list\<close> is defined in \<open>lib/iterator\<close>,
      which is not among the sources; it turns a list-valued argument ("per-table
      sizes") into the list of its element values.\<close>
  "genericList_to_list a =
     ebind (get_key a ''value'')
       (\<lambda>v. case v of PList vs \<Rightarrow> Inr vs | _ \<Rightarrow> Inl TypeError)"

definition read_config ::
  "config \<Rightarrow> error + int \<times> pyval list \<times> pyval list \<times> pyval list \<times> pyval \<times> bool" where
  \<comment> \<open>lines 155 to 165 of \<open>get_data\<close>: \<open>num_tables\<close>, \<open>rows\<close>, \<open>dims\<close>,
      \<open>pooling_factors\<close>, \<open>batch_size\<close>, \<open>weighted\<close>\<close>
  "read_config cfg =
     ebind (arg_value cfg 0) (\<lambda>nt.
     ebind (as_int nt) (\<lambda>num_tables.
     ebind
       (if num_tables > 1 then
          ebind (ebind (get_item (args cfg) 1) genericList_to_list) (\<lambda>rows.
          ebind (ebind (get_item (args cfg) 2) genericList_to_list) (\<lambda>dims.
          ebind (ebind (get_item (args cfg) 4) genericList_to_list) (\<lambda>pooling_factors.
          Inr (rows, dims, pooling_factors))))
        else
          ebind (arg_value cfg 1) (\<lambda>r.
          ebind (arg_value cfg 2) (\<lambda>d.
          ebind (arg_value cfg 4) (\<lambda>p.
          Inr ([r], [d], [p])))))
       (\<lambda>(rows, dims, pooling_factors).
     ebind (arg_value cfg 3) (\<lambda>batch_size.
     ebind (arg_value cfg 5) (\<lambda>weighted.
     Inr (num_tables, rows, dims, pooling_factors, batch_size, truthy weighted))))))"

text \<open>
  Functions of Python and torch that \<open>get_data\<close> calls and whose behaviour on a given
  string is not fixed by the module: \<open>float(s)\<close> on a string (\<open>None\<close> for a
  \<open>ValueError\<close>), and whether \<open>torch.device(s)\<close> accepts the device string.
\<close>

record ext =
  parse_float :: "string \<Rightarrow> pyfloat option"
  device_ok :: "string \<Rightarrow> bool"

definition to_float :: "ext \<Rightarrow> string option \<Rightarrow> error + pyfloat" where
  \<comment> \<open>\<open>float(distribution)\<close>, where \<open>distribution\<close> is the environment's string or,
      when the variable is unset, the integer 1\<close>
  "to_float x distribution =
     (case distribution of
        None \<Rightarrow> Inr (Finite 1)
      | Some s \<Rightarrow>
          (case parse_float x s of
             None \<Rightarrow> Inl (ValueError ''could not convert string to float'')
           | Some f \<Rightarrow> Inr f))"

definition getenv :: "(string \<rightharpoonup> string) \<Rightarrow> string \<Rightarrow> pyval" where
  "getenv env k = (case env k of None \<Rightarrow> PNone | Some s \<Rightarrow> PStr s)"

definition resolve_sources :: "config \<Rightarrow> (string \<rightharpoonup> string) \<Rightarrow> bool \<Rightarrow> pyval \<times> pyval \<times> pyval" where
  \<comment> \<open>lines 178 to 192 of \<open>get_data\<close>: \<open>indices_file\<close>, \<open>offsets_file\<close>,
      \<open>weights_file\<close>; \<open>config["args"][4]\<close> has been read before, so it exists\<close>
  "resolve_sources cfg env weighted =
     (let a4 = args cfg ! 4 in
      case (a4 ''indices_tensor'', a4 ''offsets_tensor'') of
        (Some indices_file, Some offsets_file) \<Rightarrow>
          (indices_file, offsets_file,
           if weighted then
             (case a4 ''weights_tensor'' of Some weights_file \<Rightarrow> weights_file | None \<Rightarrow> PNone)
           else PNone)
      | _ \<Rightarrow>
          (getenv env ''split_embedding_indices'',
           getenv env ''split_embedding_offsets'',
           if weighted then getenv env ''split_embedding_weights'' else PNone))"

definition override_mode :: "config \<Rightarrow> (string \<rightharpoonup> string) \<Rightarrow> bool \<Rightarrow> bool" where
  \<comment> \<open>the test of line 195: both \<open>indices_file\<close> and \<open>offsets_file\<close> are not \<open>None\<close>\<close>
  "override_mode cfg env weighted =
     (case resolve_sources cfg env weighted of
        (indices_file, offsets_file, weights_file) \<Rightarrow>
          indices_file \<noteq> PNone \<and> offsets_file \<noteq> PNone)"

section \<open>Override mode\<close>

definition torch_load :: "pyval \<Rightarrow> world \<Rightarrow> (error + tensor) \<times> world" where
  \<comment> \<open>\<open>torch.load(f, map_location=target_device)\<close>; a missing or unreadable file raises\<close>
  "torch_load f w =
     (let w1 = w\<lparr>trace := trace w @ [TorchLoad f]\<rparr> in
      case f of
        PStr p \<Rightarrow> (case files w p of None \<Rightarrow> (Inl LoadError, w1) | Some t \<Rightarrow> (Inr t, w1))
      | _ \<Rightarrow> (Inl LoadError, w1))"

definition load_override ::
  "pyval \<Rightarrow> pyval \<Rightarrow> pyval \<Rightarrow> world \<Rightarrow> (error + tensor \<times> tensor \<times> tensor option) \<times> world" where
  \<comment> \<open>lines 196 to 200 of \<open>get_data\<close>\<close>
  "load_override indices_file offsets_file weights_file w =
     (case torch_load indices_file w of
        (Inl e, w1) \<Rightarrow> (Inl e, w1)
      | (Inr indices_tensor, w1) \<Rightarrow>
          (case torch_load offsets_file w1 of
             (Inl e, w2) \<Rightarrow> (Inl e, w2)
           | (Inr offsets_tensor, w2) \<Rightarrow>
               if truthy weights_file then
                 (case torch_load weights_file w2 of
                    (Inl e, w3) \<Rightarrow> (Inl e, w3)
                  | (Inr t, w3) \<Rightarrow> (Inr (indices_tensor, offsets_tensor, Some t), w3))
               else (Inr (indices_tensor, offsets_tensor, None), w2)))"

section \<open>Generation mode\<close>

text \<open>The variables that the loop over the tables updates.\<close>

record lists =
  indices_list :: "int list list"
  offsets_list :: "int list list"
  per_sample_weights_list :: "float32 list option list"
  offset_start :: int

definition last_item :: "int list \<Rightarrow> error + int" where
  \<comment> \<open>\<open>offsets[-1].item()\<close>\<close>
  "last_item xs = (if xs = [] then Inl IndexError else Inr (last xs))"

definition table_step ::
  "ext \<Rightarrow> string option \<Rightarrow> pyval \<Rightarrow> bool \<Rightarrow> pyval list \<Rightarrow> pyval list \<Rightarrow> nat \<Rightarrow> lists \<Rightarrow> world
     \<Rightarrow> (error + lists) \<times> world" where
  \<comment> \<open>the body of the loop, lines 203 to 216 of \<open>get_data\<close>\<close>
  "table_step x distribution batch_size weighted pooling_factors rows i st w =
     (case
        ebind (get_item pooling_factors i) (\<lambda>pf.
        ebind (get_item rows i) (\<lambda>r.
        ebind (to_float x distribution) (\<lambda>alpha.
        ebind (as_int batch_size) (\<lambda>B.
        ebind (as_int pf) (\<lambda>L.
        ebind (as_int r) (\<lambda>E. Inr (B, L, E, alpha)))))))
      of
        Inl e \<Rightarrow> (Inl e, w)
      | Inr (B, L, E, alpha) \<Rightarrow>
          (case generate_requests B L E (offset_start st) alpha weighted w of
             (Inl e, w') \<Rightarrow> (Inl e, w')
           | (Inr (indices, offsets, per_sample_weights), w') \<Rightarrow>
               (case last_item offsets of
                  Inl e \<Rightarrow> (Inl e, w')
                | Inr last_offset \<Rightarrow>
                    (Inr \<lparr>indices_list = indices_list st @ [indices],
                          offsets_list = offsets_list st @ [offsets],
                          per_sample_weights_list =
                            (if weighted then per_sample_weights_list st @ [per_sample_weights]
                             else per_sample_weights_list st),
                          offset_start = last_offset\<rparr>, w'))))"

fun table_loop ::
  "ext \<Rightarrow> string option \<Rightarrow> pyval \<Rightarrow> bool \<Rightarrow> pyval list \<Rightarrow> pyval list \<Rightarrow> nat list \<Rightarrow> lists \<Rightarrow> world
     \<Rightarrow> (error + lists) \<times> world" where
  \<comment> \<open>\<open>for i in ...\<close>, lines 202 to 216\<close>
  "table_loop x distribution batch_size weighted pooling_factors rows [] st w = (Inr st, w)"
| "table_loop x distribution batch_size weighted pooling_factors rows (i # is) st w =
     (case table_step x distribution batch_size weighted pooling_factors rows i st w of
        (Inl e, w') \<Rightarrow> (Inl e, w')
      | (Inr st', w') \<Rightarrow>
          table_loop x distribution batch_size weighted pooling_factors rows is st' w')"

definition torch_cat :: "'a list list \<Rightarrow> error + 'a list" where
  \<comment> \<open>\<open>torch.cat\<close> of one-dimensional tensors; an empty list of tensors is rejected\<close>
  "torch_cat ts = (if ts = [] then Inl RuntimeError else Inr (concat ts))"

fun those_tensors :: "'a list option list \<Rightarrow> error + 'a list list" where
  \<comment> \<open>\<open>torch.cat\<close> rejects a list that holds \<open>None\<close>\<close>
  "those_tensors [] = Inr []"
| "those_tensors (None # ts) = Inl TypeError"
| "those_tensors (Some t # ts) = ebind (those_tensors ts) (\<lambda>r. Inr (t # r))"

definition initial_lists :: lists where
  \<comment> \<open>lines 167 to 170\<close>
  "initial_lists =
     \<lparr>indices_list = [], offsets_list = [], per_sample_weights_list = [], offset_start = 0\<rparr>"

definition concat_lists :: "bool \<Rightarrow> lists \<Rightarrow> error + tensor \<times> tensor \<times> tensor option" where
  \<comment> \<open>lines 218 to 224 of \<open>get_data\<close>\<close>
  "concat_lists weighted st =
     ebind (torch_cat (indices_list st)) (\<lambda>indices_tensor.
     ebind (torch_cat (offsets_list st)) (\<lambda>offsets_tensor.
     if weighted then
       ebind (ebind (those_tensors (per_sample_weights_list st)) torch_cat)
         (\<lambda>t. Inr (IntTensor indices_tensor, IntTensor offsets_tensor, Some (FloatTensor t)))
     else Inr (IntTensor indices_tensor, IntTensor offsets_tensor, None)))"

definition generate_tables ::
  "ext \<Rightarrow> string option \<Rightarrow> int \<Rightarrow> pyval \<Rightarrow> bool \<Rightarrow> pyval list \<Rightarrow> pyval list \<Rightarrow> world
     \<Rightarrow> (error + tensor \<times> tensor \<times> tensor option) \<times> world" where
  \<comment> \<open>the generation branch, lines 202 to 224 of \<open>get_data\<close>\<close>
  "generate_tables x distribution num_tables batch_size weighted pooling_factors rows w =
     (case table_loop x distribution batch_size weighted pooling_factors rows
             [0..<nat num_tables] initial_lists w of
        (Inl e, w') \<Rightarrow> (Inl e, w')
      | (Inr st, w') \<Rightarrow> (concat_lists weighted st, w'))"

section \<open>\<open>get_data\<close>\<close>

definition to_device :: "bool \<Rightarrow> tensor \<times> tensor \<times> tensor option \<Rightarrow> error + tensor \<times> tensor \<times> tensor option" where
  \<comment> \<open>lines 233 to 240: \<open>.to(target_device)\<close> keeps the values of a tensor; on
      \<open>None\<close> the attribute does not exist\<close>
  "to_device weighted b =
     (case b of (indices_tensor, offsets_tensor, per_sample_weights_tensor) \<Rightarrow>
        if weighted then
          (case per_sample_weights_tensor of
             None \<Rightarrow> Inl AttributeError
           | Some t \<Rightarrow> Inr (indices_tensor, offsets_tensor, Some t))
        else Inr (indices_tensor, offsets_tensor, None))"

definition get_data ::
  "ext \<Rightarrow> config \<Rightarrow> string \<Rightarrow> world \<Rightarrow> (error + tensor \<times> tensor \<times> tensor option) \<times> world" where
  "get_data x cfg device w =
     (case read_config cfg of
        Inl e \<Rightarrow> (Inl e, w)
      | Inr (num_tables, rows, dims, pooling_factors, batch_size, weighted) \<Rightarrow>
          (let distribution = environ w ''split_embedding_distribution'' in
           if \<not> device_ok x device then (Inl RuntimeError, w)
           else
             (case resolve_sources cfg (environ w) weighted of
                (indices_file, offsets_file, weights_file) \<Rightarrow>
                  (case
                     (if indices_file \<noteq> PNone \<and> offsets_file \<noteq> PNone then
                        load_override indices_file offsets_file weights_file w
                      else
                        generate_tables x distribution num_tables batch_size weighted
                          pooling_factors rows w)
                   of
                     (Inl e, w') \<Rightarrow> (Inl e, w')
                   | (Inr b, w') \<Rightarrow> (to_device weighted b, w')))))"

section \<open>The input configuration iterator\<close>

text \<open>
  The iterator object: \<open>self.configs[self.key]\<close> (the declared input groups, each with
  its list of axis arguments) and the build-time arguments that \<open>__init__\<close> stores.
\<close>

record iterator =
  self_inputs :: "config list"
  self_num_tables :: arg
  self_rows :: arg
  self_dim :: arg
  self_weighted :: arg
  self_weights_precision :: arg

text \<open>
  Functions of \<open>lib/generator\<close> and \<open>lib/iterator\<close> whose result the module only
  passes on: \<open>full_range(*value)\<close> and \<open>remove_meta_attr\<close>.
\<close>

record lib =
  full_range :: "pyval \<Rightarrow> error + pyval list"
  remove_meta_attr :: "config \<Rightarrow> config"

definition iterable_list :: "pyval \<Rightarrow> error + pyval list" where
  \<comment> \<open>Modelled from the spec: \<open>IterableList\<close> is defined in \<open>lib/generator\<close>, which is
      not among the sources; it marks "an explicit list" as an axis to iterate over.\<close>
  "iterable_list v =
     (case v of PList vs \<Rightarrow> Inr vs | PIter vs \<Rightarrow> Inr vs | _ \<Rightarrow> Inl TypeError)"

definition table_product :: "arg \<Rightarrow> arg list" where
  \<comment> \<open>Modelled from the spec: \<open>TableProduct\<close> is defined in \<open>lib/generator\<close>, which is
      not among the sources; an axis that is a range or an explicit list yields one
      argument per element, "a single value" yields itself.\<close>
  "table_product a =
     (case a ''value'' of
        Some (PIter vs) \<Rightarrow> map (\<lambda>v. a(''value'' \<mapsto> v)) vs
      | _ \<Rightarrow> [a])"

definition list_product :: "'a list list \<Rightarrow> 'a list list" where
  \<comment> \<open>Modelled from the spec: \<open>ListProduct\<close> is defined in \<open>lib/generator\<close>, which is
      not among the sources; it enumerates "the cartesian product" of the axes, one
      list with an element of every axis per point.\<close>
  "list_product axes = product_lists axes"

definition expand_arg :: "lib \<Rightarrow> arg \<Rightarrow> error + arg list" where
  \<comment> \<open>lines 68 to 72 of \<open>_generator\<close>, for one \<open>arg\<close>\<close>
  "expand_arg l a =
     ebind
       (if a ''__range__'' \<noteq> None then
          ebind (get_key a ''value'') (\<lambda>v.
          ebind (full_range l v) (\<lambda>vs. Inr (a(''value'' \<mapsto> PIter vs))))
        else Inr a) (\<lambda>a1.
     ebind
       (if a1 ''__list__'' \<noteq> None then
          ebind (get_key a1 ''value'') (\<lambda>v.
          ebind (iterable_list v) (\<lambda>vs. Inr (a1(''value'' \<mapsto> PIter vs))))
        else Inr a1) (\<lambda>a2.
     Inr (table_product a2)))"

fun expand_args :: "lib \<Rightarrow> arg list \<Rightarrow> error + arg list list" where
  \<comment> \<open>\<open>for arg in input_config["args"]\<close>, lines 66 to 72\<close>
  "expand_args l [] = Inr []"
| "expand_args l (a # as) =
     ebind (expand_arg l a) (\<lambda>t. ebind (expand_args l as) (\<lambda>ts. Inr (t # ts)))"

definition digit_char :: "nat \<Rightarrow> char" where
  "digit_char d = char_of (48 + d)"

function show_nat :: "nat \<Rightarrow> string" where
  \<comment> \<open>the decimal digits of a non-negative integer, as an f-string prints it\<close>
  "show_nat n = (if n < 10 then [digit_char n] else show_nat (n div 10) @ [digit_char (n mod 10)])"
  by pat_completeness auto
termination
  by (relation "measure id") auto

definition format_id :: "nat \<Rightarrow> nat \<Rightarrow> string" where
  \<comment> \<open>\<open>f"{var_id}_{config_id}"\<close>\<close>
  "format_id var_id config_id = show_nat var_id @ ''_'' @ show_nat config_id"

text \<open>
  A generator yields its values one by one and may end with an exception: its run is
  the list of the values yielded and the exception that ended it, if any.
\<close>

fun product_yields ::
  "lib \<Rightarrow> iterator \<Rightarrow> nat \<Rightarrow> nat \<Rightarrow> arg list list \<Rightarrow> (string \<times> config) list \<times> error option" where
  \<comment> \<open>\<open>for arg_config in ListProduct(args)\<close>, lines 75 to 92\<close>
  "product_yields l self var_id config_id [] = ([], None)"
| "product_yields l self var_id config_id (arg_config # rest) =
     (case ebind (get_item arg_config 0) (\<lambda>batch_size.
           ebind (get_item arg_config 1) (\<lambda>pooling_factor. Inr (batch_size, pooling_factor)))
      of
        Inl e \<Rightarrow> ([], Some e)
      | Inr (batch_size, pooling_factor) \<Rightarrow>
          (case product_yields l self var_id (config_id + 1) rest of
             (ys, err) \<Rightarrow>
               ((format_id var_id config_id,
                 remove_meta_attr l
                   \<lparr>args = [self_num_tables self, self_rows self, self_dim self, batch_size,
                            pooling_factor, self_weighted self, self_weights_precision self]\<rparr>)
                # ys, err)))"

fun generator_loop ::
  "lib \<Rightarrow> iterator \<Rightarrow> nat \<Rightarrow> config list \<Rightarrow> (string \<times> config) list \<times> error option" where
  \<comment> \<open>\<open>for input in inputs\<close>, lines 64 to 92; \<open>var_id\<close> is the same in every round,
      as no statement of the loop assigns it\<close>
  "generator_loop l self var_id [] = ([], None)"
| "generator_loop l self var_id (input_config # rest) =
     (case expand_args l (args input_config) of
        Inl e \<Rightarrow> ([], Some e)
      | Inr axes \<Rightarrow>
          (case product_yields l self var_id 0 (list_product axes) of
             (ys, Some e) \<Rightarrow> (ys, Some e)
           | (ys, None) \<Rightarrow>
               (case generator_loop l self var_id rest of
                  (ys', err) \<Rightarrow> (ys @ ys', err))))"

definition generator :: "lib \<Rightarrow> iterator \<Rightarrow> (string \<times> config) list \<times> error option" where
  \<comment> \<open>\<open>_generator\<close>, lines 61 to 92\<close>
  "generator l self = generator_loop l self 0 (self_inputs self)"

section \<open>The operator wrapper\<close>

datatype compute_device = CPU | CUDA

text \<open>
  The operator object: its device string and the handle of the built operator
  (\<open>None\<close> after \<open>cleanup\<close>). The output and gradient tensors play no part in \<open>build\<close>.
\<close>

record 'h operator =
  self_device :: string
  self_op :: "'h option"

text \<open>
  The calls into \<open>fbgemm_gpu\<close>: the enumeration constructor \<open>EmbeddingLocation(location)\<close>
  and the constructor of the operator, which receives the embedding specifications and
  the optimizer, pooling and precision arguments (it converts them itself, in the order
  of the source, after the specifications are built). Both may raise.
\<close>

record ('loc, 'h) fbgemm =
  embedding_location :: "pyval \<Rightarrow> error + 'loc"
  codegen :: "(pyval \<times> pyval \<times> 'loc \<times> compute_device) list \<Rightarrow> pyval \<Rightarrow> pyval \<Rightarrow> pyval \<Rightarrow> error + 'h"

definition py_index :: "pyval \<Rightarrow> nat \<Rightarrow> error + pyval" where
  \<comment> \<open>\<open>v[i]\<close> at a non-negative index\<close>
  "py_index v i =
     (case v of
        PList vs \<Rightarrow> get_item vs i
      | PStr s \<Rightarrow> ebind (get_item s i) (\<lambda>c. Inr (PStr [c]))
      | _ \<Rightarrow> Inl TypeError)"

fun embedding_specs ::
  "('loc, 'h) fbgemm \<Rightarrow> pyval \<Rightarrow> pyval \<Rightarrow> pyval \<Rightarrow> compute_device \<Rightarrow> nat list
     \<Rightarrow> error + (pyval \<times> pyval \<times> 'loc \<times> compute_device) list" where
  \<comment> \<open>the list comprehension of lines 289 to 297\<close>
  "embedding_specs f rows_list dims_list location compute_device [] = Inr []"
| "embedding_specs f rows_list dims_list location compute_device (i # is) =
     ebind (py_index rows_list i) (\<lambda>r.
     ebind (py_index dims_list i) (\<lambda>d.
     ebind (embedding_location f location) (\<lambda>loc.
     ebind (embedding_specs f rows_list dims_list location compute_device is) (\<lambda>rest.
     Inr ((r, d, loc, compute_device) # rest)))))"

definition build ::
  "('loc, 'h) fbgemm \<Rightarrow> pyval \<Rightarrow> pyval \<Rightarrow> pyval \<Rightarrow> pyval \<Rightarrow> pyval \<Rightarrow> pyval \<Rightarrow> pyval \<Rightarrow> pyval
     \<Rightarrow> 'h operator \<Rightarrow> error option \<times> 'h operator" where
  \<comment> \<open>lines 258 to 309; the result is the exception raised, if any, and the object
      after the call\<close>
  "build f num_tables rows dims location pooling weighted weights_precision optimizer self =
     (case (if num_tables = PInt 1 \<or> num_tables = PBool True
            then (PList [rows], PList [dims]) else (rows, dims)) of
        (rows_list, dims_list) \<Rightarrow>
          (case (if prefix ''cpu'' (self_device self) then Inr CPU
                 else if prefix ''cuda'' (self_device self) then Inr CUDA
                 else Inl (ValueError (''Unknown compute device '' @ self_device self))) of
             Inl e \<Rightarrow> (Some e, self)
           | Inr compute_device \<Rightarrow>
               (case
                  ebind (as_int num_tables) (\<lambda>n.
                  ebind (embedding_specs f rows_list dims_list location compute_device [0..<nat n])
                    (\<lambda>specs. codegen f specs optimizer pooling weights_precision))
                of
                  Inl e \<Rightarrow> (Some e, self)
                | Inr h \<Rightarrow> (None, self\<lparr>self_op := Some h\<rparr>))))"

definition cleanup :: "'h operator \<Rightarrow> 'h operator" where
  \<comment> \<open>lines 311 to 316\<close>
  "cleanup self = self\<lparr>self_op := None\<rparr>"

section \<open>An invariant of the loop over the tables\<close>

text \<open>
  What holds of the loop variables after every round when the batch size and the
  pooling factors are positive: the running \<open>offset_start\<close> is the number of indices
  generated so far, and the offsets generated so far, taken together, are sorted, start
  at 0, end at \<open>offset_start\<close> and have one element per bag plus the leading zero.
\<close>

definition chain_inv :: "int \<Rightarrow> lists \<Rightarrow> bool" where
  "chain_inv B st \<longleftrightarrow>
     offset_start st = int (length (concat (indices_list st))) \<and>
     (offsets_list st = [] \<longrightarrow> offset_start st = 0) \<and>
     (offsets_list st \<noteq> [] \<longrightarrow>
        concat (offsets_list st) \<noteq> [] \<and> sorted (concat (offsets_list st)) \<and>
        hd (concat (offsets_list st)) = 0 \<and>
        last (concat (offsets_list st)) = offset_start st \<and> 0 < offset_start st \<and>
        int (length (concat (offsets_list st))) = int (length (offsets_list st)) * B + 1)"

section \<open>Example inputs\<close>

definition example_world :: world where
  "example_world =
     \<lparr>torch_rng = (\<lambda>n. 7 * n + 3), torch_pos = 0, numpy_rng = (\<lambda>n. n * n), numpy_pos = 0,
      zipf_accepts = (\<lambda>a. True), environ = Map.empty, files = Map.empty, trace = []\<rparr>"

definition example_ext :: ext where
  \<comment> \<open>\<open>float\<close> on the strings used in the examples; the devices \<open>cpu\<close> and \<open>cuda\<close>\<close>
  "example_ext =
     \<lparr>parse_float = (\<lambda>s. if s = ''0'' then Some (Finite 0)
                          else if s = ''0.25'' then Some (Finite (1 / 4))
                          else if s = ''1'' then Some (Finite 1)
                          else if s = ''1.5'' then Some (Finite (3 / 2))
                          else None),
      device_ok = (\<lambda>s. s = ''cpu'' \<or> s = ''cuda'')\<rparr>"

definition example_config :: "int \<Rightarrow> pyval \<Rightarrow> pyval \<Rightarrow> int \<Rightarrow> pyval \<Rightarrow> bool \<Rightarrow> config" where
  \<comment> \<open>a configuration \<open>[num_tables, rows, dims, batch_size, pooling_factor, weighted]\<close>
      without file overrides on axis 4\<close>
  "example_config num_tables rows dims batch_size pooling_factor weighted =
     \<lparr>args = [[''value'' \<mapsto> PInt num_tables], [''value'' \<mapsto> rows], [''value'' \<mapsto> dims],
              [''value'' \<mapsto> PInt batch_size], [''value'' \<mapsto> pooling_factor],
              [''value'' \<mapsto> PBool weighted]]\<rparr>"

definition example_tables :: "bool \<Rightarrow> config" where
  \<comment> \<open>two tables of 5 and 7 rows with pooling factors 2 and 3, batch size 2\<close>
  "example_tables weighted =
     example_config 2 (PList [PInt 5, PInt 7]) (PList [PInt 4, PInt 4]) 2
       (PList [PInt 2, PInt 3]) weighted"

definition example_world_linear :: world where
  \<comment> \<open>the environment selects the skew 0\<close>
  "example_world_linear =
     example_world\<lparr>environ := [''split_embedding_distribution'' \<mapsto> ''0'']\<rparr>"

definition example_small_table :: config where
  \<comment> \<open>one table of 2 rows with pooling factor 3, batch size 1\<close>
  "example_small_table = example_config 1 (PInt 2) (PInt 4) 1 (PInt 3) False"

definition example_world_quarter :: world where
  \<comment> \<open>the environment selects the skew 0.25\<close>
  "example_world_quarter =
     example_world\<lparr>environ := [''split_embedding_distribution'' \<mapsto> ''0.25'']\<rparr>"

definition example_huge_table :: config where
  \<comment> \<open>one table of \<open>2^63\<close> rows with pooling factor 2, batch size 1\<close>
  "example_huge_table = example_config 1 (PInt (2 ^ 63)) (PInt 4) 1 (PInt 2) False"

definition example_world_files :: world where
  \<comment> \<open>three serialized tensors on storage\<close>
  "example_world_files =
     example_world\<lparr>files := [''i.pt'' \<mapsto> IntTensor [0, 1, 2], ''o.pt'' \<mapsto> IntTensor [0, 3],
                             ''w.pt'' \<mapsto> FloatTensor [Float32 1, Float32 2, Float32 3]]\<rparr>"

definition example_override :: "arg \<Rightarrow> config" where
  \<comment> \<open>a weighted configuration whose axis 4 carries the given file overrides\<close>
  "example_override overrides =
     \<lparr>args = [[''value'' \<mapsto> PInt 1], [''value'' \<mapsto> PInt 10], [''value'' \<mapsto> PInt 4],
              [''value'' \<mapsto> PInt 1], overrides(''value'' \<mapsto> PInt 3),
              [''value'' \<mapsto> PBool True]]\<rparr>"

definition example_override_weights :: config where
  "example_override_weights =
     example_override [''indices_tensor'' \<mapsto> PStr ''i.pt'', ''offsets_tensor'' \<mapsto> PStr ''o.pt'',
                       ''weights_tensor'' \<mapsto> PStr ''w.pt'']"

definition example_override_null :: config where
  \<comment> \<open>axis 4 carries both override keys, the one of the indices with the value \<open>None\<close>\<close>
  "example_override_null =
     example_override [''indices_tensor'' \<mapsto> PNone, ''offsets_tensor'' \<mapsto> PStr ''o.pt'']"

definition example_world_env :: world where
  \<comment> \<open>the environment supplies both an indices source and an offsets source\<close>
  "example_world_env =
     example_world_files\<lparr>environ := [''split_embedding_indices'' \<mapsto> ''i.pt'',
                                        ''split_embedding_offsets'' \<mapsto> ''o.pt'']\<rparr>"

definition example_override_no_weights :: config where
  "example_override_no_weights =
     example_override [''indices_tensor'' \<mapsto> PStr ''i.pt'', ''offsets_tensor'' \<mapsto> PStr ''o.pt'']"

definition example_fbgemm :: "(pyval, (pyval \<times> pyval \<times> pyval \<times> compute_device) list) fbgemm" where
  \<comment> \<open>a constructor that always succeeds; its handle is the list of specifications\<close>
  "example_fbgemm =
     \<lparr>embedding_location = (\<lambda>v. Inr v), codegen = (\<lambda>specs optimizer pooling precision. Inr specs)\<rparr>"

definition example_lib :: lib where
  \<comment> \<open>an inclusive range of integers; no meta attributes to remove\<close>
  "example_lib =
     \<lparr>full_range = (\<lambda>v. case v of PList [PInt a, PInt b] \<Rightarrow> Inr (map PInt [a..b])
                             | _ \<Rightarrow> Inl TypeError),
      remove_meta_attr = (\<lambda>c. c)\<rparr>"

definition example_iterator :: "config list \<Rightarrow> iterator" where
  \<comment> \<open>an iterator over the given input groups, for one table of 10 rows\<close>
  "example_iterator inputs =
     \<lparr>self_inputs = inputs, self_num_tables = [''value'' \<mapsto> PInt 1],
      self_rows = [''value'' \<mapsto> PInt 10], self_dim = [''value'' \<mapsto> PInt 4],
      self_weighted = [''value'' \<mapsto> PBool False],
      self_weights_precision = [''value'' \<mapsto> PStr ''fp16'']\<rparr>"

definition example_product_group :: config where
  \<comment> \<open>one input group: batch sizes 32 and 64, pooling factors 4 and 8\<close>
  "example_product_group =
     \<lparr>args = [[''__list__'' \<mapsto> PBool True, ''value'' \<mapsto> PList [PInt 32, PInt 64]],
              [''__list__'' \<mapsto> PBool True, ''value'' \<mapsto> PList [PInt 4, PInt 8]]]\<rparr>"

definition example_single_group :: "int \<Rightarrow> int \<Rightarrow> config" where
  \<comment> \<open>one input group with a single batch size and a single pooling factor\<close>
  "example_single_group batch_size pooling_factor =
     \<lparr>args = [[''value'' \<mapsto> PInt batch_size], [''value'' \<mapsto> PInt pooling_factor]]\<rparr>"

definition example_operator :: "(pyval \<times> pyval \<times> pyval \<times> compute_device) list operator" where
  \<comment> \<open>a fresh operator object on a device that is neither a cpu nor a cuda device\<close>
  "example_operator = \<lparr>self_device = ''tpu'', self_op = None\<rparr>"

section \<open>Properties of the sampler\<close>

lemma torch_arange_ok:
  "0 \<le> n \<Longrightarrow> n < 2 ^ 63 \<Longrightarrow> torch_arange n = Inr (map int [0..<nat n])"
  by (simp add: torch_arange_def)

lemma scalar_int64_ok: "- (2 ^ 63) \<le> d \<Longrightarrow> d < 2 ^ 63 \<Longrightarrow> scalar_int64 d = Inr d"
  by (simp add: scalar_int64_def)

lemma tensor_remainder_ok:
  "1 \<le> d \<Longrightarrow> d < 2 ^ 63 \<Longrightarrow> tensor_remainder xs d = Inr (map (\<lambda>x. x mod d) xs)"
  by (simp add: tensor_remainder_def scalar_int64_ok)

lemma factor_le_product:
  assumes "1 \<le> (B::int)" "1 \<le> L"
  shows "L \<le> B * L"
  using mult_right_mono[of 1 B L] assms by simp

lemma float_eq_not_le_half: "float_gt alpha 0 \<Longrightarrow> \<not> float_eq alpha 0"
  by (cases alpha) auto

lemma float_gt_half_cases:
  "float_gt alpha (1 / 2) \<Longrightarrow> \<not> float_eq alpha 0 \<and> \<not> float_le alpha (1 / 2)"
  by (cases alpha) auto

lemma float_gt_one_cases:
  "float_gt alpha 1 \<Longrightarrow> \<not> float_eq alpha 0 \<and> \<not> float_le alpha (1 / 2) \<and> \<not> float_le alpha 1"
  by (cases alpha) auto

lemma sample_zero:
  assumes "0 \<le> B * L" "B * L < 2 ^ 63" "1 \<le> L" "L < 2 ^ 63" "float_eq alpha 0"
  shows "sample_indices B L E alpha w = (Inr (map (\<lambda>i. int i mod L) [0..<nat (B * L)]), w)"
  using assms by (simp add: sample_indices_def torch_arange_ok tensor_remainder_ok comp_def)

lemma sample_low:
  assumes "0 \<le> B * L" "B * L < 2 ^ 63" "1 \<le> E" "E < 2 ^ 63"
    "\<not> float_eq alpha 0" "float_le alpha (1 / 2)"
  shows "sample_indices B L E alpha w = (Inr (map (\<lambda>i. int i mod E) [0..<nat (B * L)]), w)"
  using assms by (simp add: sample_indices_def torch_arange_ok tensor_remainder_ok comp_def)

text \<open>
  Claim C1, as amended. For a batch size, a pooling factor and a table size of at least
  1, with fewer than \<open>2^63\<close> indices to generate: when the skew is 0 the sampler returns
  the sequence whose element \<open>i\<close> is \<open>i mod L\<close>, and when the skew is in \<open>(0, 0.5]\<close>
  and the table size is an \<open>int64\<close> value (below \<open>2^63\<close>) the sequence whose element
  \<open>i\<close> is \<open>i mod E\<close>. The sequence has \<open>B * L\<close> elements and is the same in every
  world, that is, whatever the random generators hold; the world is left as it was.
\<close>

theorem sample_linear_sequences:
  assumes "1 \<le> B" and "1 \<le> L" and "1 \<le> E" and "B * L < 2 ^ 63"
  shows "(float_eq alpha 0 \<longrightarrow>
            (\<exists>xs. (\<forall>w. sample_indices B L E alpha w = (Inr xs, w)) \<and>
                  length xs = nat (B * L) \<and>
                  (\<forall>i < nat (B * L). xs ! i = int i mod L))) \<and>
         (float_gt alpha 0 \<and> float_le alpha (1 / 2) \<and> E < 2 ^ 63 \<longrightarrow>
            (\<exists>xs. (\<forall>w. sample_indices B L E alpha w = (Inr xs, w)) \<and>
                  length xs = nat (B * L) \<and>
                  (\<forall>i < nat (B * L). xs ! i = int i mod E)))"
proof -
  have size: "0 \<le> B * L" using assms(1,2) by simp
  have L: "L < 2 ^ 63" using factor_le_product[OF assms(1,2)] assms(4) by linarith
  have zero: "float_eq alpha 0 \<Longrightarrow>
      \<forall>w. sample_indices B L E alpha w = (Inr (map (\<lambda>i. int i mod L) [0..<nat (B * L)]), w)"
    using sample_zero[OF size assms(4) assms(2) L] by blast
  have low: "float_gt alpha 0 \<and> float_le alpha (1 / 2) \<and> E < 2 ^ 63 \<Longrightarrow>
      \<forall>w. sample_indices B L E alpha w = (Inr (map (\<lambda>i. int i mod E) [0..<nat (B * L)]), w)"
    using sample_low[OF size assms(4) assms(3)] float_eq_not_le_half[of alpha] by blast
  show ?thesis
  proof (intro conjI impI)
    assume "float_eq alpha 0"
    from zero[OF this] show "\<exists>xs. (\<forall>w. sample_indices B L E alpha w = (Inr xs, w)) \<and>
                  length xs = nat (B * L) \<and> (\<forall>i < nat (B * L). xs ! i = int i mod L)"
      by (intro exI[of _ "map (\<lambda>i. int i mod L) [0..<nat (B * L)]"]) simp
  next
    assume "float_gt alpha 0 \<and> float_le alpha (1 / 2) \<and> E < 2 ^ 63"
    from low[OF this] show "\<exists>xs. (\<forall>w. sample_indices B L E alpha w = (Inr xs, w)) \<and>
                  length xs = nat (B * L) \<and> (\<forall>i < nat (B * L). xs ! i = int i mod E)"
      by (intro exI[of _ "map (\<lambda>i. int i mod E) [0..<nat (B * L)]"]) simp
  qed
qed

theorem sample_linear_sequences_witness:
  "(1::int) \<le> 2 \<and> (1::int) \<le> 3 \<and> (1::int) \<le> 10 \<and> (2::int) * 3 < 2 ^ 63 \<and>
   float_eq (Finite 0) 0 \<and>
   (\<exists>xs. (\<forall>w. sample_indices 2 3 10 (Finite 0) w = (Inr xs, w)) \<and>
         length xs = nat (2 * 3) \<and> (\<forall>i < nat (2 * 3). xs ! i = int i mod 3)) \<and>
   (1::int) \<le> 4 \<and> float_gt (Finite (1 / 4)) 0 \<and> float_le (Finite (1 / 4)) (1 / 2) \<and>
   (4::int) < 2 ^ 63 \<and>
   (\<exists>xs. (\<forall>w. sample_indices 2 3 4 (Finite (1 / 4)) w = (Inr xs, w)) \<and>
         length xs = nat (2 * 3) \<and> (\<forall>i < nat (2 * 3). xs ! i = int i mod 4))"
proof -
  have p: "(1::int) \<le> 2" "(1::int) \<le> 3" by simp_all
  have e: "(1::int) \<le> 10" "(1::int) \<le> 4" by simp_all
  have s: "(2::int) * 3 < 2 ^ 63" by simp
  have a: "float_eq (Finite 0) 0" "float_gt (Finite (1 / 4)) 0"
    "float_le (Finite (1 / 4)) (1 / 2)" "(4::int) < 2 ^ 63"
    by simp_all
  show ?thesis
    using sample_linear_sequences [OF p e(1) s, of "Finite 0"]
      sample_linear_sequences [OF p e(2) s, of "Finite (1 / 4)"] p e s a
    by blast
qed

text \<open>
  Beyond the \<open>int64\<close> range the sequences are not the ones above: a table size of
  \<open>2^63\<close> wraps to \<open>-2^63\<close> as a divisor, and \<open>2^63\<close> indices cannot be generated.
\<close>

theorem sample_linear_sequences_counterexample:
  "fst (sample_indices 1 2 (2 ^ 63) (Finite (1 / 4)) example_world) = Inr [0, 1 - 2 ^ 63] \<and>
   [0, 1 - 2 ^ 63] ! 1 \<noteq> (1::int) mod 2 ^ 63 \<and>
   isl (fst (sample_indices 1 (2 ^ 63) 1 (Finite 0) example_world))"
proof (intro conjI)
  show "fst (sample_indices 1 2 (2 ^ 63) (Finite (1 / 4)) example_world) = Inr [0, 1 - 2 ^ 63]"
    by code_simp
  show "[0, 1 - 2 ^ 63] ! 1 \<noteq> (1::int) mod 2 ^ 63" by simp
  show "isl (fst (sample_indices 1 (2 ^ 63) 1 (Finite 0) example_world))"
    by (simp add: sample_indices_def torch_arange_def)
qed

lemma draw_torch_length: "draw_torch n w = (rs, w') \<Longrightarrow> length rs = n"
  by (auto simp: draw_torch_def)

lemma draw_numpy_length: "draw_numpy n w = (rs, w') \<Longrightarrow> length rs = n"
  by (auto simp: draw_numpy_def)

lemma torch_randint_ok:
  assumes "0 \<le> n" "n < 2 ^ 63" "0 < high" "high < 2 ^ 63"
  shows "\<exists>xs w'. torch_randint 0 high n w = (Inr xs, w') \<and> length xs = nat n \<and>
           (\<forall>x \<in> set xs. 0 \<le> x \<and> x < high)"
proof -
  obtain rs w' where d: "draw_torch (nat n) w = (rs, w')" by (cases "draw_torch (nat n) w")
  have "torch_randint 0 high n w = (Inr (map (\<lambda>r. 0 + int r mod (high - 0)) rs), w')"
    using assms d by (simp add: torch_randint_def)
  moreover have "length rs = nat n" using d by (rule draw_torch_length)
  moreover have "\<forall>r. 0 \<le> 0 + int r mod (high - 0) \<and> 0 + int r mod (high - 0) < high"
    using assms(3) by simp
  ultimately show ?thesis by auto
qed

lemma numpy_zipf_Inr:
  assumes "numpy_zipf a n w = (Inr zs, w')"
  shows "length zs = nat n" and "\<forall>z \<in> set zs. 1 \<le> z \<and> z < 2 ^ 63"
  using assms
  by (auto simp: numpy_zipf_def draw_numpy_def split: if_splits)

lemma numpy_zipf_ok:
  assumes "0 \<le> n" "n < 2 ^ 63" "float_gt a 1" "\<not> float_ge a 1025" "zipf_accepts w a"
  shows "\<exists>zs w'. numpy_zipf a n w = (Inr zs, w')"
  using assms by (simp add: numpy_zipf_def split: prod.splits)

lemma sample_uniform:
  assumes "float_gt alpha (1 / 2)" "float_le alpha 1"
  shows "sample_indices B L E alpha w = torch_randint 0 E (B * L) w"
  using assms float_gt_half_cases[of alpha] by (simp add: sample_indices_def)

lemma sample_zipf:
  assumes "float_gt alpha 1" "numpy_zipf alpha (B * L) w = (Inr zs, w')" "1 \<le> E" "E < 2 ^ 63"
  shows "sample_indices B L E alpha w = (Inr (map (\<lambda>z. z mod E) zs), w')"
  using assms float_gt_one_cases[of alpha] by (simp add: sample_indices_def tensor_remainder_ok)

text \<open>
  Claim C6, as amended. For a batch size, a pooling factor and a table size of at least
  1, the table size an \<open>int64\<close> value (below \<open>2^63\<close>) and fewer than \<open>2^63\<close> indices to
  generate: when the skew is in \<open>(0.5, 1.0]\<close> the sampler returns the uniform draw of
  \<open>torch.randint\<close>, with \<open>B * L\<close> elements, every one in \<open>[0, E)\<close>; when the skew
  exceeds 1.0 and the Zipfian draw of numpy returns, the sampler returns that draw
  reduced modulo \<open>E\<close>, with \<open>B * L\<close> elements, every one in \<open>[0, E)\<close>. The draw
  returns when the skew is below 1025 and the rejection loop of the generator accepts a
  sample.
\<close>

theorem sample_random_in_range:
  assumes "1 \<le> B" and "1 \<le> L" and "1 \<le> E" and "E < 2 ^ 63" and "B * L < 2 ^ 63"
  shows "(float_gt alpha (1 / 2) \<and> float_le alpha 1 \<longrightarrow>
            sample_indices B L E alpha w = torch_randint 0 E (B * L) w \<and>
            (\<exists>xs w'. sample_indices B L E alpha w = (Inr xs, w') \<and>
                  length xs = nat (B * L) \<and> (\<forall>x \<in> set xs. 0 \<le> x \<and> x < E))) \<and>
         (float_gt alpha 1 \<longrightarrow>
            (\<forall>zs w'. numpy_zipf alpha (B * L) w = (Inr zs, w') \<longrightarrow>
                  sample_indices B L E alpha w = (Inr (map (\<lambda>z. z mod E) zs), w') \<and>
                  length (map (\<lambda>z. z mod E) zs) = nat (B * L) \<and>
                  (\<forall>x \<in> set (map (\<lambda>z. z mod E) zs). 0 \<le> x \<and> x < E)) \<and>
            (\<not> float_ge alpha 1025 \<and> zipf_accepts w alpha \<longrightarrow>
               (\<exists>zs w'. numpy_zipf alpha (B * L) w = (Inr zs, w'))))"
proof -
  have size: "0 \<le> B * L" using assms(1,2) by simp
  have pos: "0 < E" using assms(3) by simp
  have uniform: "sample_indices B L E alpha w = torch_randint 0 E (B * L) w \<and>
            (\<exists>xs w'. sample_indices B L E alpha w = (Inr xs, w') \<and>
                  length xs = nat (B * L) \<and> (\<forall>x \<in> set xs. 0 \<le> x \<and> x < E))"
    if a: "float_gt alpha (1 / 2) \<and> float_le alpha 1"
  proof -
    have eq: "sample_indices B L E alpha w = torch_randint 0 E (B * L) w"
      using a by (simp add: sample_uniform)
    show ?thesis
      using torch_randint_ok[OF size assms(5) pos assms(4), of w] by (simp only: eq)
  qed
  have zipf: "sample_indices B L E alpha w = (Inr (map (\<lambda>z. z mod E) zs), w') \<and>
                  length (map (\<lambda>z. z mod E) zs) = nat (B * L) \<and>
                  (\<forall>x \<in> set (map (\<lambda>z. z mod E) zs). 0 \<le> x \<and> x < E)"
    if a: "float_gt alpha 1" and z: "numpy_zipf alpha (B * L) w = (Inr zs, w')" for zs w'
  proof -
    have s: "sample_indices B L E alpha w = (Inr (map (\<lambda>z. z mod E) zs), w')"
      by (rule sample_zipf[OF a z assms(3,4)])
    have r: "\<forall>x \<in> set (map (\<lambda>z. z mod E) zs). 0 \<le> x \<and> x < E"
      using pos by simp
    have l: "length (map (\<lambda>z. z mod E) zs) = nat (B * L)"
      using numpy_zipf_Inr(1)[OF z] by simp
    show ?thesis by (intro conjI s l r)
  qed
  have returns: "\<exists>zs w'. numpy_zipf alpha (B * L) w = (Inr zs, w')"
    if "float_gt alpha 1" "\<not> float_ge alpha 1025 \<and> zipf_accepts w alpha"
    using numpy_zipf_ok[OF size assms(5) that(1)] that(2) by blast
  show ?thesis using uniform zipf returns by blast
qed

theorem sample_random_in_range_witness:
  "(1::int) \<le> 2 \<and> (1::int) \<le> 3 \<and> (1::int) \<le> 5 \<and> (5::int) < 2 ^ 63 \<and>
   (2::int) * 3 < 2 ^ 63 \<and>
   float_gt (Finite 1) (1 / 2) \<and> float_le (Finite 1) 1 \<and>
   (\<exists>xs w'. sample_indices 2 3 5 (Finite 1) example_world = (Inr xs, w') \<and>
             length xs = nat (2 * 3) \<and> (\<forall>x \<in> set xs. 0 \<le> x \<and> x < 5)) \<and>
   float_gt (Finite 2) 1 \<and> \<not> float_ge (Finite 2) 1025 \<and>
   zipf_accepts example_world (Finite 2) \<and>
   (\<exists>zs w'. numpy_zipf (Finite 2) (2 * 3) example_world = (Inr zs, w') \<and>
             sample_indices 2 3 5 (Finite 2) example_world = (Inr (map (\<lambda>z. z mod 5) zs), w') \<and>
             length (map (\<lambda>z. z mod 5) zs) = nat (2 * 3) \<and>
             (\<forall>x \<in> set (map (\<lambda>z. z mod 5) zs). 0 \<le> x \<and> x < 5))"
proof -
  have p: "(1::int) \<le> 2" "(1::int) \<le> 3" "(1::int) \<le> 5" "(5::int) < 2 ^ 63"
    "(2::int) * 3 < 2 ^ 63"
    by simp_all
  have a: "float_gt (Finite 1) (1 / 2)" "float_le (Finite 1) 1" "float_gt (Finite 2) 1"
    "\<not> float_ge (Finite 2) 1025"
    by simp_all
  have z: "zipf_accepts example_world (Finite 2)" by (simp add: example_world_def)
  show ?thesis
    using p a z sample_random_in_range [OF p, of "Finite 1" example_world]
      sample_random_in_range [OF p, of "Finite 2" example_world]
    by blast
qed

text \<open>
  With a table size of \<open>2^63\<close> the uniform draw raises and the reduced Zipfian draw
  is negative; with an infinite skew the Zipfian draw does not return.
\<close>

theorem sample_random_in_range_counterexample:
  "isl (fst (sample_indices 1 2 (2 ^ 63) (Finite 1) example_world)) \<and>
   float_gt PosInf 1 \<and>
   fst (sample_indices 1 2 5 PosInf example_world) = Inl NoReturn \<and>
   fst (sample_indices 1 2 (2 ^ 63) (Finite 2) example_world)
     = Inr [1 - 2 ^ 63, 2 - 2 ^ 63] \<and>
   \<not> (0 \<le> [1 - 2 ^ 63, 2 - 2 ^ 63 :: int] ! 0)"
proof (intro conjI)
  show "isl (fst (sample_indices 1 2 (2 ^ 63) (Finite 1) example_world))" by code_simp
  show "float_gt PosInf 1" by simp
  show "fst (sample_indices 1 2 5 PosInf example_world) = Inl NoReturn" by code_simp
  show "fst (sample_indices 1 2 (2 ^ 63) (Finite 2) example_world)
     = Inr [1 - 2 ^ 63, 2 - 2 ^ 63]"
    by code_simp
  show "\<not> (0 \<le> [1 - 2 ^ 63, 2 - 2 ^ 63 :: int] ! 0)" by simp
qed

section \<open>Cumulative sums and single calls of \<open>generate_requests\<close>\<close>

lemma length_cumsum_from: "length (cumsum_from acc xs) = length xs"
  by (induction xs arbitrary: acc) auto

lemma cumsum_from_lower: "\<forall>x \<in> set xs. 0 \<le> x \<Longrightarrow> y \<in> set (cumsum_from acc xs) \<Longrightarrow> acc \<le> y"
proof (induction xs arbitrary: acc)
  case Nil
  then show ?case by simp
next
  case (Cons a xs)
  then show ?case by force
qed

lemma cumsum_from_lower_strict:
  "\<forall>x \<in> set xs. 1 \<le> x \<Longrightarrow> y \<in> set (cumsum_from acc xs) \<Longrightarrow> acc < y"
proof (induction xs arbitrary: acc)
  case Nil
  then show ?case by simp
next
  case (Cons a xs)
  then show ?case by force
qed

lemma sorted_cumsum_from: "\<forall>x \<in> set xs. 0 \<le> x \<Longrightarrow> sorted (cumsum_from acc xs)"
proof (induction xs arbitrary: acc)
  case Nil
  then show ?case by simp
next
  case (Cons a xs)
  have "\<forall>y \<in> set (cumsum_from (acc + a) xs). acc + a \<le> y"
    using Cons.prems cumsum_from_lower[of xs _ "acc + a"] by auto
  then show ?case using Cons by simp
qed

lemma cumsum_from_Nil_iff: "cumsum_from acc xs = [] \<longleftrightarrow> xs = []"
  by (cases xs) auto

lemma last_cumsum_from: "xs \<noteq> [] \<Longrightarrow> last (cumsum_from acc xs) = acc + sum_list xs"
proof (induction xs arbitrary: acc)
  case Nil
  then show ?case by simp
next
  case (Cons a xs)
  show ?case
  proof (cases "xs = []")
    case True
    then show ?thesis by simp
  next
    case False
    then have "last (cumsum_from (acc + a) xs) = acc + a + sum_list xs"
      by (rule Cons.IH)
    then show ?thesis using False by (simp add: cumsum_from_Nil_iff)
  qed
qed

lemma sum_list_replicate_int: "sum_list (replicate n (L::int)) = int n * L"
  by (induction n) (auto simp: algebra_simps)

lemma make_offsets_Inr:
  assumes "make_offsets B L off = Inr offs"
  shows "0 \<le> B"
    and "offs = (if off = 0 then cumsum (0 # replicate (nat B) L)
                 else map (\<lambda>c. off + c) (cumsum (replicate (nat B) L)))"
  using assms
  by (auto simp: make_offsets_def numpy_ones_def Let_def comp_def split: if_splits)

lemma sample_indices_Inr:
  assumes "sample_indices B L E alpha w = (Inr inds, w')"
  shows "length inds = nat (B * L)" and "0 \<le> B * L" and "trace w' = trace w"
    and "environ w' = environ w" and "files w' = files w"
  using assms
  by (auto simp: sample_indices_def Let_def torch_arange_def tensor_remainder_def
        torch_randint_def numpy_zipf_def draw_torch_def draw_numpy_def
      split: if_splits sum.splits prod.splits)

lemma tensor_remainder_Inr:
  assumes "tensor_remainder xs d = Inr ys"
  shows "\<exists>d'. scalar_int64 d = Inr d' \<and> ys = map (\<lambda>x. x mod d') xs"
  using assms by (auto simp: tensor_remainder_def split: sum.splits if_splits)

lemma torch_arange_Inr:
  assumes "torch_arange n = Inr xs"
  shows "0 \<le> n" "n < 2 ^ 63" "xs = map int [0..<nat n]"
  using assms by (auto simp: torch_arange_def split: if_splits)

lemma sample_indices_range:
  assumes "sample_indices B L E alpha w = (Inr inds, w')"
  shows "float_eq alpha 0 \<Longrightarrow> 1 \<le> L \<Longrightarrow> \<forall>x \<in> set inds. 0 \<le> x \<and> x < L"
    and "\<not> float_eq alpha 0 \<Longrightarrow> 1 \<le> E \<Longrightarrow> E < 2 ^ 63 \<Longrightarrow> \<forall>x \<in> set inds. 0 \<le> x \<and> x < E"
proof -
  show "\<forall>x \<in> set inds. 0 \<le> x \<and> x < L" if a: "float_eq alpha 0" and l: "1 \<le> L"
  proof (cases "inds = []")
    case True
    then show ?thesis by simp
  next
    case False
    obtain xs where ar: "torch_arange (B * L) = Inr xs" and tr: "tensor_remainder xs L = Inr inds"
      using assms a by (auto simp: sample_indices_def Let_def split: sum.splits)
    note r = torch_arange_Inr[OF ar]
    from tensor_remainder_Inr[OF tr] obtain d' where
      d: "scalar_int64 L = Inr d'" "inds = map (\<lambda>x. x mod d') xs"
      by blast
    have "xs \<noteq> []" using d(2) False by simp
    then have "0 < B * L" using r by (cases "B * L \<le> 0") auto
    then have "1 \<le> B" using l by (simp add: zero_less_mult_iff)
    from factor_le_product[OF this l] r(2) have "L < 2 ^ 63" by linarith
    then have "d' = L" using d(1) l by (simp add: scalar_int64_def)
    then show ?thesis using d(2) l by auto
  qed
  show "\<forall>x \<in> set inds. 0 \<le> x \<and> x < E"
    if a: "\<not> float_eq alpha 0" and e: "1 \<le> E" "E < 2 ^ 63"
  proof (cases "float_le alpha (1 / 2)")
    case True
    obtain xs where tr: "tensor_remainder xs E = Inr inds"
      using assms a True by (auto simp: sample_indices_def Let_def split: sum.splits)
    then show ?thesis using e by (simp add: tensor_remainder_ok) auto
  next
    case False
    note nle = this
    show ?thesis
    proof (cases "float_le alpha 1")
      case True
      then have "torch_randint 0 E (B * L) w = (Inr inds, w')"
        using assms a nle by (simp add: sample_indices_def)
      then show ?thesis using e
        by (auto simp: torch_randint_def split: if_splits prod.splits)
    next
      case False
      obtain zs where tr: "tensor_remainder zs E = Inr inds"
        using assms a nle False
        by (auto simp: sample_indices_def Let_def split: sum.splits prod.splits)
      then show ?thesis using e by (simp add: tensor_remainder_ok) auto
    qed
  qed
qed

lemma torch_randn_Inr:
  assumes "torch_randn n w = (Inr ws, w')"
  shows "length ws = nat n" and "trace w' = trace w"
  using assms by (auto simp: torch_randn_def draw_torch_def split: if_splits)

lemma generate_requests_Inr:
  assumes "generate_requests B L E off alpha weighted w = (Inr (inds, offs, pw), w')"
  shows "\<exists>w1 w2. sample_indices B L E alpha w1 = (Inr inds, w2) \<and>
           trace w1 = trace w @ [GenerateRequests B L E off alpha weighted]"
    and "make_offsets B L off = Inr offs"
    and "weighted \<Longrightarrow> \<exists>ws. pw = Some ws \<and> length ws = nat (B * L)"
    and "\<not> weighted \<Longrightarrow> pw = None"
    and "trace w' = trace w @ [GenerateRequests B L E off alpha weighted]"
proof -
  define w1 where "w1 = w\<lparr>trace := trace w @ [GenerateRequests B L E off alpha weighted]\<rparr>"
  have t1: "trace w1 = trace w @ [GenerateRequests B L E off alpha weighted]"
    by (simp add: w1_def)
  obtain r w2 where s: "sample_indices B L E alpha w1 = (r, w2)"
    by (cases "sample_indices B L E alpha w1")
  have g: "generate_requests B L E off alpha weighted w =
     (case (r, w2) of
        (Inl e, w2) \<Rightarrow> (Inl e, w2)
      | (Inr indices, w2) \<Rightarrow>
          (case make_offsets B L off of
             Inl e \<Rightarrow> (Inl e, w2)
           | Inr offsets \<Rightarrow>
               if weighted then
                 (case torch_randn (B * L) w2 of
                    (Inl e, w3) \<Rightarrow> (Inl e, w3)
                  | (Inr ws, w3) \<Rightarrow> (Inr (indices, offsets, Some ws), w3))
               else (Inr (indices, offsets, None), w2)))"
    by (simp add: generate_requests_def Let_def w1_def[symmetric] s)
  from assms g obtain inds0 where r: "r = Inr inds0" by (cases r) auto
  from assms g r obtain offs0 where m: "make_offsets B L off = Inr offs0"
    by (cases "make_offsets B L off") auto
  have tr2: "trace w2 = trace w1" using s r sample_indices_Inr(3) by blast
  show "make_offsets B L off = Inr offs" using assms g r m by (auto split: if_splits prod.splits sum.splits)
  have i: "inds0 = inds" using assms g r m by (auto split: if_splits prod.splits sum.splits)
  show "\<exists>w1 w2. sample_indices B L E alpha w1 = (Inr inds, w2) \<and>
           trace w1 = trace w @ [GenerateRequests B L E off alpha weighted]"
    using s r i t1 by blast
  show "\<exists>ws. pw = Some ws \<and> length ws = nat (B * L)" if "weighted"
    using assms g r m that torch_randn_Inr(1)
    by (auto split: if_splits prod.splits sum.splits)
  show "pw = None" if "\<not> weighted"
    using assms g r m that by (auto split: if_splits prod.splits sum.splits)
  show "trace w' = trace w @ [GenerateRequests B L E off alpha weighted]"
    using assms g r m tr2 t1 torch_randn_Inr(2)
    by (auto split: if_splits prod.splits sum.splits)
qed

section \<open>One round of the loop over the tables\<close>

lemma ebind_Inr_iff: "ebind m f = Inr y \<longleftrightarrow> (\<exists>v. m = Inr v \<and> f v = Inr y)"
  by (cases m) (auto simp: ebind_def)

lemma get_item_Inr_iff: "get_item xs i = Inr v \<longleftrightarrow> i < length xs \<and> xs ! i = v"
  by (auto simp: get_item_def)

lemma last_item_Inr_iff: "last_item xs = Inr v \<longleftrightarrow> xs \<noteq> [] \<and> last xs = v"
  by (auto simp: last_item_def)

lemma table_step_Inr:
  assumes "table_step x dst bs weighted pfs rows i st w = (Inr st', w')"
  shows "\<exists>B L E alpha inds offs pw.
           i < length pfs \<and> i < length rows \<and> as_int bs = Inr B \<and>
           as_int (pfs ! i) = Inr L \<and> as_int (rows ! i) = Inr E \<and>
           to_float x dst = Inr alpha \<and>
           generate_requests B L E (offset_start st) alpha weighted w
             = (Inr (inds, offs, pw), w') \<and>
           offs \<noteq> [] \<and>
           indices_list st' = indices_list st @ [inds] \<and>
           offsets_list st' = offsets_list st @ [offs] \<and>
           per_sample_weights_list st' =
             (if weighted then per_sample_weights_list st @ [pw]
              else per_sample_weights_list st) \<and>
           offset_start st' = last offs"
proof -
  define pre where "pre =
        ebind (get_item pfs i) (\<lambda>pf.
        ebind (get_item rows i) (\<lambda>r.
        ebind (to_float x dst) (\<lambda>alpha.
        ebind (as_int bs) (\<lambda>B.
        ebind (as_int pf) (\<lambda>L.
        ebind (as_int r) (\<lambda>E. Inr (B, L, E, alpha)))))))"
  have step: "table_step x dst bs weighted pfs rows i st w =
     (case pre of
        Inl e \<Rightarrow> (Inl e, w)
      | Inr (B, L, E, alpha) \<Rightarrow>
          (case generate_requests B L E (offset_start st) alpha weighted w of
             (Inl e, w') \<Rightarrow> (Inl e, w')
           | (Inr (indices, offsets, per_sample_weights), w') \<Rightarrow>
               (case last_item offsets of
                  Inl e \<Rightarrow> (Inl e, w')
                | Inr last_offset \<Rightarrow>
                    (Inr \<lparr>indices_list = indices_list st @ [indices],
                          offsets_list = offsets_list st @ [offsets],
                          per_sample_weights_list =
                            (if weighted then per_sample_weights_list st @ [per_sample_weights]
                             else per_sample_weights_list st),
                          offset_start = last_offset\<rparr>, w'))))"
    by (simp add: table_step_def pre_def)
  from assms step obtain B L E alpha where p: "pre = Inr (B, L, E, alpha)"
    by (cases pre) auto
  from p have facts: "i < length pfs" "i < length rows" "as_int (rows ! i) = Inr E"
    "to_float x dst = Inr alpha" "as_int bs = Inr B" "as_int (pfs ! i) = Inr L"
    by (auto simp: pre_def ebind_Inr_iff get_item_Inr_iff)
  obtain r w2 where g: "generate_requests B L E (offset_start st) alpha weighted w = (r, w2)"
    by (cases "generate_requests B L E (offset_start st) alpha weighted w")
  from assms step p facts g obtain inds offs pw where r: "r = Inr (inds, offs, pw)"
    by (cases r) auto
  from assms step p facts g r obtain lo where l: "last_item offs = Inr lo"
    by (cases "last_item offs") auto
  have st': "st' = \<lparr>indices_list = indices_list st @ [inds],
                          offsets_list = offsets_list st @ [offs],
                          per_sample_weights_list =
                            (if weighted then per_sample_weights_list st @ [pw]
                             else per_sample_weights_list st),
                          offset_start = lo\<rparr>" and w': "w' = w2"
    using assms step p facts g r l by auto
  have lo: "offs \<noteq> []" "lo = last offs" using l by (auto simp: last_item_Inr_iff)
  show ?thesis
    using facts g r st' w' lo by auto
qed

section \<open>The invariant of the offsets\<close>

lemma first_offsets:
  assumes "1 \<le> B" "1 \<le> L" "offs = cumsum (0 # replicate (nat B) L)"
  shows "offs \<noteq> []" "sorted offs" "hd offs = 0" "last offs = B * L"
    "int (length offs) = B + 1"
proof -
  have eq: "offs = 0 # cumsum_from 0 (replicate (nat B) L)"
    using assms(3) by (simp add: cumsum_def)
  have ne: "replicate (nat B) L \<noteq> []" using assms(1) by simp
  show "offs \<noteq> []" "hd offs = 0" using eq by simp_all
  have "\<forall>y \<in> set (cumsum_from 0 (replicate (nat B) L)). 0 \<le> y"
    using cumsum_from_lower[of "replicate (nat B) L" _ 0] assms(2) by auto
  then show "sorted offs"
    using eq sorted_cumsum_from[of "replicate (nat B) L" 0] assms(2) by auto
  show "last offs = B * L"
    using eq ne last_cumsum_from[OF ne, of 0] assms(1)
    by (simp add: cumsum_from_Nil_iff sum_list_replicate_int)
  show "int (length offs) = B + 1"
    using eq assms(1) by (simp add: length_cumsum_from)
qed

lemma next_offsets:
  assumes "1 \<le> B" "1 \<le> L" "offs = map (\<lambda>c. off + c) (cumsum (replicate (nat B) L))"
  shows "offs \<noteq> []" "sorted offs" "\<forall>y \<in> set offs. off < y" "last offs = off + B * L"
    "int (length offs) = B"
proof -
  let ?cs = "cumsum_from 0 (replicate (nat B) L)"
  have eq: "offs = map (\<lambda>c. off + c) ?cs" using assms(3) by (simp add: cumsum_def)
  have ne: "replicate (nat B) L \<noteq> []" using assms(1) by simp
  then have cne: "?cs \<noteq> []" by (simp add: cumsum_from_Nil_iff)
  show "offs \<noteq> []" using eq cne by simp
  have "sorted ?cs" using sorted_cumsum_from[of "replicate (nat B) L" 0] assms(2) by auto
  then show "sorted offs" unfolding eq
    by (simp add: sorted_map sorted_wrt_iff_nth_less)
  have "\<forall>y \<in> set ?cs. 0 < y"
    using cumsum_from_lower_strict[of "replicate (nat B) L" _ 0] assms(2) by auto
  then show "\<forall>y \<in> set offs. off < y" unfolding eq by auto
  show "last offs = off + B * L"
    unfolding eq using cne last_cumsum_from[OF ne, of 0] assms(1)
    by (simp add: last_map sum_list_replicate_int)
  show "int (length offs) = B"
    unfolding eq using assms(1) by (simp add: length_cumsum_from)
qed

lemma sorted_last_upper: "sorted xs \<Longrightarrow> x \<in> set xs \<Longrightarrow> x \<le> last xs"
  by (induction xs) (auto split: if_splits)

lemma chain_inv_step:
  assumes inv: "chain_inv B st" and B: "1 \<le> B" and L: "1 \<le> L"
    and offs: "make_offsets B L (offset_start st) = Inr offs"
    and len: "length inds = nat (B * L)"
    and st': "indices_list st' = indices_list st @ [inds]"
      "offsets_list st' = offsets_list st @ [offs]" "offset_start st' = last offs"
  shows "chain_inv B st'"
    and "int (length (concat (indices_list st'))) =
           int (length (concat (indices_list st))) + B * L"
proof -
  have "0 \<le> B * L" using B L by simp
  then have "int (length inds) = B * L" using len by linarith
  then show "int (length (concat (indices_list st'))) =
           int (length (concat (indices_list st))) + B * L"
    using st'(1) by simp
  show "chain_inv B st'"
proof (cases "offsets_list st = []")
  case True
  then have z: "offset_start st = 0" using inv unfolding chain_inv_def by blast
  then have o: "offs = cumsum (0 # replicate (nat B) L)"
    using make_offsets_Inr(2)[OF offs] by simp
  note f = first_offsets[OF B L o]
  have pos: "0 < B * L" using B L by simp
  have a: "offset_start st = int (length (concat (indices_list st)))"
    using inv unfolding chain_inv_def by blast
  have "length (concat (indices_list st)) = 0" using a z by linarith
  then have "concat (indices_list st) = []" by (simp only: length_0_conv)
  then show ?thesis
    using True f len pos B L st' by (simp add: chain_inv_def)
next
  case False
  then have i: "concat (offsets_list st) \<noteq> []" "sorted (concat (offsets_list st))"
    "hd (concat (offsets_list st)) = 0" "last (concat (offsets_list st)) = offset_start st"
    "0 < offset_start st"
    "int (length (concat (offsets_list st))) = int (length (offsets_list st)) * B + 1"
    "offset_start st = int (length (concat (indices_list st)))"
    using inv unfolding chain_inv_def by blast+
  have o: "offs = map (\<lambda>c. offset_start st + c) (cumsum (replicate (nat B) L))"
    using make_offsets_Inr(2)[OF offs] i(5) by simp
  note n = next_offsets[OF B L o]
  have pos: "0 \<le> B * L" using B L by simp
  have srt: "sorted (concat (offsets_list st) @ offs)"
    using i(2) n(2) n(3) sorted_last_upper[OF i(2)] i(4)
    by (fastforce simp: sorted_append)
  have hd: "hd (concat (offsets_list st) @ offs) = 0" using i(1) i(3) by simp
  have lst: "last (concat (offsets_list st) @ offs) = last offs" using n(1) by simp
  have ln: "int (length (concat (offsets_list st) @ offs)) =
              (int (length (offsets_list st)) + 1) * B + 1"
    using i(6) n(5) by (simp add: algebra_simps)
  have "int (length inds) = B * L" using len pos by linarith
  then have tot: "last offs = int (length (concat (indices_list st) @ inds))"
    using n(4) i(7) by simp
  have p: "0 < last offs" using n(4) i(5) pos by linarith
  show ?thesis
    using srt hd lst ln tot p n(1) st' by (simp add: chain_inv_def)
qed
qed

lemma table_loop_Cons_Inr:
  assumes "table_loop x dst bs weighted pfs rows (i # is) st w = (Inr st', w')"
  shows "\<exists>st1 w1. table_step x dst bs weighted pfs rows i st w = (Inr st1, w1) \<and>
           table_loop x dst bs weighted pfs rows is st1 w1 = (Inr st', w')"
proof -
  obtain r w1 where s: "table_step x dst bs weighted pfs rows i st w = (r, w1)"
    by (cases "table_step x dst bs weighted pfs rows i st w")
  with assms obtain st1 where "r = Inr st1" by (cases r) auto
  with assms s show ?thesis by auto
qed

lemma table_loop_chain_inv:
  assumes "table_loop x dst (PInt B) weighted (map PInt Ls) rows is st w = (Inr st', w')"
    and "chain_inv B st" and "1 \<le> B" and "\<forall>i \<in> set is. i < length Ls \<longrightarrow> 1 \<le> Ls ! i"
  shows "chain_inv B st' \<and>
         length (offsets_list st') = length (offsets_list st) + length is \<and>
         int (length (concat (indices_list st'))) =
           int (length (concat (indices_list st))) + B * sum_list (map (\<lambda>i. Ls ! i) is)"
  using assms
proof (induction "is" arbitrary: st w)
  case Nil
  then show ?case by simp
next
  case (Cons i "is")
  from table_loop_Cons_Inr[OF Cons.prems(1)] obtain st1 w1 where
    step: "table_step x dst (PInt B) weighted (map PInt Ls) rows i st w = (Inr st1, w1)" and
    rest: "table_loop x dst (PInt B) weighted (map PInt Ls) rows is st1 w1 = (Inr st', w')"
    by blast
  from table_step_Inr[OF step] obtain B' L E alpha inds offs pw where
    f: "i < length (map PInt Ls)" "as_int (PInt B) = Inr B'"
      "as_int (map PInt Ls ! i) = Inr L"
      "generate_requests B' L E (offset_start st) alpha weighted w = (Inr (inds, offs, pw), w1)"
      "indices_list st1 = indices_list st @ [inds]"
      "offsets_list st1 = offsets_list st @ [offs]"
      "offset_start st1 = last offs"
    by blast
  have B': "B' = B" using f(2) by simp
  have i: "i < length Ls" using f(1) by simp
  then have L: "L = Ls ! i" using f(3) by simp
  have L1: "1 \<le> L" using Cons.prems(4) i L by simp
  note g = generate_requests_Inr[OF f(4)[unfolded B']]
  from g(1) obtain wa wb where "sample_indices B L E alpha wa = (Inr inds, wb)" by blast
  then have len: "length inds = nat (B * L)" by (rule sample_indices_Inr(1))
  note c = chain_inv_step[OF Cons.prems(2) Cons.prems(3) L1 g(2) len f(5) f(6) f(7)]
  have "\<forall>i \<in> set is. i < length Ls \<longrightarrow> 1 \<le> Ls ! i" using Cons.prems(4) by simp
  from Cons.IH[OF rest c(1) Cons.prems(3) this]
  show ?case using c(2) f(6) L by (simp add: algebra_simps)
qed

section \<open>\<open>get_data\<close> in generation mode\<close>

lemma chain_inv_initial: "chain_inv B initial_lists"
  by (simp add: chain_inv_def initial_lists_def)

lemma get_data_generation:
  assumes rc: "read_config cfg = Inr (num_tables, rows, dims, pfs, bs, weighted)"
    and gen: "\<not> override_mode cfg (environ w) weighted"
    and run: "get_data x cfg dev w = (Inr b, w')"
  shows "\<exists>st b'. table_loop x (environ w ''split_embedding_distribution'') bs weighted pfs rows
                    [0..<nat num_tables] initial_lists w = (Inr st, w') \<and>
                 concat_lists weighted st = Inr b' \<and> to_device weighted b' = Inr b"
proof -
  obtain i_f o_f w_f where rs: "resolve_sources cfg (environ w) weighted = (i_f, o_f, w_f)"
    by (cases "resolve_sources cfg (environ w) weighted")
  have mode: "\<not> (i_f \<noteq> PNone \<and> o_f \<noteq> PNone)"
    using gen rs by (simp add: override_mode_def)
  let ?g = "generate_tables x (environ w ''split_embedding_distribution'') num_tables bs
              weighted pfs rows w"
  have dev: "device_ok x dev"
    using run rc by (auto simp: get_data_def Let_def split: if_splits)
  have gd: "get_data x cfg dev w =
      (case ?g of (Inl e, w') \<Rightarrow> (Inl e, w') | (Inr b, w') \<Rightarrow> (to_device weighted b, w'))"
    using rc rs mode dev by (auto simp: get_data_def Let_def)
  obtain r w1 where g: "?g = (r, w1)" by (cases ?g)
  from run gd g obtain b' where r: "r = Inr b'" by (cases r) auto
  from run gd g r have td: "to_device weighted b' = Inr b" and w1: "w1 = w'" by auto
  let ?l = "table_loop x (environ w ''split_embedding_distribution'') bs weighted pfs rows
              [0..<nat num_tables] initial_lists w"
  obtain r2 w2 where l: "?l = (r2, w2)" by (cases ?l)
  have gt: "?g = (case (r2, w2) of (Inl e, w') \<Rightarrow> (Inl e, w')
                  | (Inr st, w') \<Rightarrow> (concat_lists weighted st, w'))"
    by (simp add: generate_tables_def l)
  from g r gt obtain st where r2: "r2 = Inr st" by (cases r2) auto
  from g r gt r2 w1 have "concat_lists weighted st = Inr b'" "w2 = w'" by auto
  then show ?thesis using l r2 td by blast
qed

lemma concat_lists_Inr:
  assumes "concat_lists weighted st = Inr (it, ot, pw)"
  shows "indices_list st \<noteq> []" "offsets_list st \<noteq> []"
    "it = IntTensor (concat (indices_list st))" "ot = IntTensor (concat (offsets_list st))"
    "\<not> weighted \<Longrightarrow> pw = None"
    "weighted \<Longrightarrow> \<exists>wss. those_tensors (per_sample_weights_list st) = Inr wss \<and>
                      pw = Some (FloatTensor (concat wss))"
  using assms
  by (auto simp: concat_lists_def torch_cat_def ebind_def split: if_splits sum.splits)

lemma to_device_Inr:
  assumes "to_device weighted (it, ot, pw) = Inr (it', ot', pw')"
  shows "it' = it" "ot' = ot" "weighted \<Longrightarrow> pw' = pw \<and> pw \<noteq> None" "\<not> weighted \<Longrightarrow> pw' = None"
  using assms by (auto simp: to_device_def split: if_splits option.splits)

lemma map_nth_upt_take: "n \<le> length Ls \<Longrightarrow> map (\<lambda>i. Ls ! i) [0..<n] = take n Ls"
  by (rule nth_equalityI) auto

lemma table_loop_in_range:
  assumes "table_loop x dst bs weighted pfs rows ixs st w = (Inr st', w')"
  shows "\<forall>i \<in> set ixs. i < length pfs \<and> i < length rows"
  using assms
proof (induction ixs arbitrary: st w)
  case Nil
  then show ?case by simp
next
  case (Cons i ixs)
  from table_loop_Cons_Inr[OF Cons.prems] obtain st1 w1 where
    step: "table_step x dst bs weighted pfs rows i st w = (Inr st1, w1)" and
    rest: "table_loop x dst bs weighted pfs rows ixs st1 w1 = (Inr st', w')"
    by blast
  from table_step_Inr[OF step] have "i < length pfs \<and> i < length rows" by blast
  then show ?case using Cons.IH[OF rest] by simp
qed

text \<open>
  Claim C3. In generation mode, with at least one table, a batch size of at least 1 and
  pooling factors of at least 1, every batch that \<open>get_data\<close> returns has integer index
  and offset tensors; the offsets are non-decreasing, their first element is 0, their
  last element is the number of indices, which is \<open>B\<close> times the sum of the pooling
  factors of the tables, and there are \<open>num_tables * B + 1\<close> of them.
\<close>

theorem generated_offsets:
  assumes "read_config cfg = Inr (num_tables, rows, dims, map PInt Ls, PInt B, weighted)"
    and "\<not> override_mode cfg (environ w) weighted"
    and "1 \<le> num_tables" and "1 \<le> B"
    and "\<forall>L \<in> set (take (nat num_tables) Ls). 1 \<le> L"
    and "get_data x cfg dev w = (Inr (indices, offsets, weights), w')"
  shows "\<exists>ixs os. indices = IntTensor ixs \<and> offsets = IntTensor os \<and>
           sorted os \<and> os ! 0 = 0 \<and> last os = int (length ixs) \<and>
           int (length ixs) = B * sum_list (take (nat num_tables) Ls) \<and>
           int (length os) = num_tables * B + 1"
proof -
  let ?n = "nat num_tables"
  from get_data_generation[OF assms(1) assms(2) assms(6)] obtain st b' where
    loop: "table_loop x (environ w ''split_embedding_distribution'') (PInt B) weighted
             (map PInt Ls) rows [0..<?n] initial_lists w = (Inr st, w')" and
    cat: "concat_lists weighted st = Inr b'" and
    dev: "to_device weighted b' = Inr (indices, offsets, weights)"
    by blast
  obtain it ot pw where b': "b' = (it, ot, pw)" by (cases b')
  have it: "indices = IntTensor (concat (indices_list st))"
    and ot: "offsets = IntTensor (concat (offsets_list st))"
    using concat_lists_Inr(3,4)[OF cat[unfolded b']] to_device_Inr(1,2)[OF dev[unfolded b']]
    by simp_all
  have ne: "offsets_list st \<noteq> []" using concat_lists_Inr(2)[OF cat[unfolded b']] .
  have n: "0 < ?n" using assms(3) by simp
  have "\<forall>i \<in> set [0..<?n]. i < length (map PInt Ls)"
    using table_loop_in_range[OF loop] by blast
  then have "?n - 1 < length Ls" using n by simp
  then have le: "?n \<le> length Ls" by simp
  have pf: "\<forall>i \<in> set [0..<?n]. i < length Ls \<longrightarrow> 1 \<le> Ls ! i"
  proof (intro ballI impI)
    fix i assume "i \<in> set [0..<?n]" "i < length Ls"
    then have "Ls ! i \<in> set (take ?n Ls)"
      by (auto simp: in_set_conv_nth intro!: exI[of _ i])
    then show "1 \<le> Ls ! i" using assms(5) by blast
  qed
  from table_loop_chain_inv[OF loop chain_inv_initial assms(4) pf]
  have inv: "chain_inv B st"
    and len: "length (offsets_list st) = length (offsets_list initial_lists) + length [0..<?n]"
    and tot: "int (length (concat (indices_list st))) =
           int (length (concat (indices_list initial_lists))) +
           B * sum_list (map (\<lambda>i. Ls ! i) [0..<?n])"
    by blast+
  have len': "int (length (offsets_list st)) = num_tables"
    using len assms(3) by (simp add: initial_lists_def)
  have tot': "int (length (concat (indices_list st))) = B * sum_list (take ?n Ls)"
    using tot by (simp add: initial_lists_def map_nth_upt_take[OF le])
  let ?os = "concat (offsets_list st)"
  have c: "?os \<noteq> []" "sorted ?os" "hd ?os = 0" "last ?os = offset_start st"
    "int (length ?os) = int (length (offsets_list st)) * B + 1"
    "offset_start st = int (length (concat (indices_list st)))"
    using inv ne unfolding chain_inv_def by blast+
  have z: "?os ! 0 = 0" using c(1) c(3) by (simp add: hd_conv_nth)
  show ?thesis
    using it ot c(2) z c(4) c(6) tot' c(5) len' by simp
qed

theorem generated_offsets_witness:
  "read_config (example_tables False) =
     Inr (2, [PInt 5, PInt 7], [PInt 4, PInt 4], map PInt [2, 3], PInt 2, False) \<and>
   \<not> override_mode (example_tables False) (environ example_world) False \<and>
   (1::int) \<le> 2 \<and> list_all (\<lambda>L. 1 \<le> L) (take (nat 2) [2, 3::int]) \<and>
   fst (get_data example_ext (example_tables False) ''cpu'' example_world) =
     Inr (IntTensor [3, 0, 2, 4, 3, 3, 3, 3, 3, 3], IntTensor [0, 2, 4, 7, 10], None) \<and>
   (\<exists>ixs os. IntTensor [3, 0, 2, 4, 3, 3, 3, 3, 3, 3] = IntTensor ixs \<and>
      IntTensor [0, 2, 4, 7, 10] = IntTensor os \<and>
      sorted os \<and> os ! 0 = 0 \<and> last os = int (length ixs) \<and>
      int (length ixs) = 2 * sum_list (take (nat 2) [2, 3]) \<and>
      int (length os) = 2 * 2 + 1)"
proof -
  have h1: "read_config (example_tables False) =
     Inr (2, [PInt 5, PInt 7], [PInt 4, PInt 4], map PInt [2, 3], PInt 2, False)"
    by code_simp
  have h2: "\<not> override_mode (example_tables False) (environ example_world) False"
    by code_simp
  have h3: "(1::int) \<le> 2" by simp
  have h5: "\<forall>L \<in> set (take (nat 2) [2, 3::int]). 1 \<le> L" by simp
  have h5': "list_all (\<lambda>L. 1 \<le> L) (take (nat 2) [2, 3::int])" by simp
  have r: "fst (get_data example_ext (example_tables False) ''cpu'' example_world) =
     Inr (IntTensor [3, 0, 2, 4, 3, 3, 3, 3, 3, 3], IntTensor [0, 2, 4, 7, 10], None)"
    by code_simp
  have run: "get_data example_ext (example_tables False) ''cpu'' example_world =
     (Inr (IntTensor [3, 0, 2, 4, 3, 3, 3, 3, 3, 3], IntTensor [0, 2, 4, 7, 10], None),
      snd (get_data example_ext (example_tables False) ''cpu'' example_world))"
    using r by (metis prod.collapse)
  show ?thesis
    using generated_offsets [OF h1 h2 h3 h3 h5 run] h1 h2 h3 h5' r by blast
qed

lemma those_tensors_Some: "those_tensors (map Some wss) = Inr wss"
  by (induction wss) (auto simp: ebind_def)

lemma table_loop_weights:
  assumes "table_loop x dst bs True pfs rows ixs st w = (Inr st', w')"
    and "\<exists>wss. per_sample_weights_list st = map Some wss \<and>
           length (concat wss) = length (concat (indices_list st))"
  shows "\<exists>wss. per_sample_weights_list st' = map Some wss \<and>
           length (concat wss) = length (concat (indices_list st'))"
  using assms
proof (induction ixs arbitrary: st w)
  case Nil
  then show ?case by simp
next
  case (Cons i ixs)
  from table_loop_Cons_Inr[OF Cons.prems(1)] obtain st1 w1 where
    step: "table_step x dst bs True pfs rows i st w = (Inr st1, w1)" and
    rest: "table_loop x dst bs True pfs rows ixs st1 w1 = (Inr st', w')"
    by blast
  from table_step_Inr[OF step] obtain B L E alpha inds offs pw where
    f: "generate_requests B L E (offset_start st) alpha True w = (Inr (inds, offs, pw), w1)"
      "indices_list st1 = indices_list st @ [inds]"
      "per_sample_weights_list st1 = per_sample_weights_list st @ [pw]"
    by auto
  note g = generate_requests_Inr[OF f(1)]
  from g(3) obtain ws where ws: "pw = Some ws" "length ws = nat (B * L)" by blast
  from g(1) obtain wa wb where "sample_indices B L E alpha wa = (Inr inds, wb)" by blast
  then have len: "length inds = nat (B * L)" by (rule sample_indices_Inr(1))
  from Cons.prems(2) obtain wss where
    wss: "per_sample_weights_list st = map Some wss"
      "length (concat wss) = length (concat (indices_list st))"
    by blast
  have "per_sample_weights_list st1 = map Some (wss @ [ws]) \<and>
        length (concat (wss @ [ws])) = length (concat (indices_list st1))"
    using f(2) f(3) ws len wss by simp
  then have "\<exists>wss. per_sample_weights_list st1 = map Some wss \<and>
           length (concat wss) = length (concat (indices_list st1))"
    by blast
  from Cons.IH[OF rest this] show ?case .
qed

text \<open>
  Claim C7. In generation mode, every batch that \<open>get_data\<close> returns has, when
  \<open>weighted\<close> is true, a weights tensor of \<open>float32\<close> samples with exactly one sample
  per index of the concatenated indices, and, when \<open>weighted\<close> is false, no weights
  (\<open>None\<close>). The samples are draws of \<open>torch.randn\<close>, whatever the skew.
\<close>

theorem generated_weights:
  assumes "read_config cfg = Inr (num_tables, rows, dims, pfs, bs, weighted)"
    and "\<not> override_mode cfg (environ w) weighted"
    and "get_data x cfg dev w = (Inr (indices, offsets, weights), w')"
  shows "(weighted \<longrightarrow>
           (\<exists>ixs ws. indices = IntTensor ixs \<and> weights = Some (FloatTensor ws) \<and>
              length ws = length ixs)) \<and>
         (\<not> weighted \<longrightarrow> weights = None)"
proof -
  from get_data_generation[OF assms] obtain st b' where
    loop: "table_loop x (environ w ''split_embedding_distribution'') bs weighted
             pfs rows [0..<nat num_tables] initial_lists w = (Inr st, w')" and
    cat: "concat_lists weighted st = Inr b'" and
    dev: "to_device weighted b' = Inr (indices, offsets, weights)"
    by blast
  obtain it ot pw where b': "b' = (it, ot, pw)" by (cases b')
  note c = concat_lists_Inr[OF cat[unfolded b']]
  note d = to_device_Inr[OF dev[unfolded b']]
  have unweighted: "weights = None" if "\<not> weighted" using d(4) that by simp
  have weighted: "\<exists>ixs ws. indices = IntTensor ixs \<and> weights = Some (FloatTensor ws) \<and>
              length ws = length ixs" if wt: "weighted"
  proof -
    have init: "\<exists>wss. per_sample_weights_list initial_lists = map Some wss \<and>
           length (concat wss) = length (concat (indices_list initial_lists))"
      by (simp add: initial_lists_def)
    from table_loop_weights[OF loop[unfolded eqTrueI[OF wt]] init] obtain wss where
      wss: "per_sample_weights_list st = map Some wss"
        "length (concat wss) = length (concat (indices_list st))"
      by blast
    from c(6)[OF wt] obtain wss' where
      t: "those_tensors (per_sample_weights_list st) = Inr wss'"
        "pw = Some (FloatTensor (concat wss'))"
      by blast
    have "wss' = wss" using t(1) wss(1) by (simp add: those_tensors_Some)
    then show ?thesis using t(2) wss(2) c(3) d(1) d(3)[OF wt] by simp
  qed
  show ?thesis using weighted unweighted by blast
qed

theorem generated_weights_witness:
  "read_config (example_tables True) =
     Inr (2, [PInt 5, PInt 7], [PInt 4, PInt 4], [PInt 2, PInt 3], PInt 2, True) \<and>
   \<not> override_mode (example_tables True) (environ example_world) True \<and>
   fst (get_data example_ext (example_tables True) ''cpu'' example_world) =
     Inr (IntTensor [3, 0, 2, 4, 3, 3, 3, 3, 3, 3], IntTensor [0, 2, 4, 7, 10],
          Some (FloatTensor (map Float32 [31, 38, 45, 52, 101, 108, 115, 122, 129, 136]))) \<and>
   (\<exists>ixs ws. IntTensor [3, 0, 2, 4, 3, 3, 3, 3, 3, 3] = IntTensor ixs \<and>
      Some (FloatTensor (map Float32 [31, 38, 45, 52, 101, 108, 115, 122, 129, 136]))
        = Some (FloatTensor ws) \<and> length ws = length ixs) \<and>
   read_config (example_tables False) =
     Inr (2, [PInt 5, PInt 7], [PInt 4, PInt 4], [PInt 2, PInt 3], PInt 2, False) \<and>
   \<not> override_mode (example_tables False) (environ example_world) False \<and>
   fst (get_data example_ext (example_tables False) ''cpu'' example_world) =
     Inr (IntTensor [3, 0, 2, 4, 3, 3, 3, 3, 3, 3], IntTensor [0, 2, 4, 7, 10], None)"
proof -
  have h1: "read_config (example_tables True) =
     Inr (2, [PInt 5, PInt 7], [PInt 4, PInt 4], [PInt 2, PInt 3], PInt 2, True)"
    by code_simp
  have h2: "\<not> override_mode (example_tables True) (environ example_world) True"
    by code_simp
  have r: "fst (get_data example_ext (example_tables True) ''cpu'' example_world) =
     Inr (IntTensor [3, 0, 2, 4, 3, 3, 3, 3, 3, 3], IntTensor [0, 2, 4, 7, 10],
          Some (FloatTensor (map Float32 [31, 38, 45, 52, 101, 108, 115, 122, 129, 136])))"
    by code_simp
  have run: "get_data example_ext (example_tables True) ''cpu'' example_world =
     (Inr (IntTensor [3, 0, 2, 4, 3, 3, 3, 3, 3, 3], IntTensor [0, 2, 4, 7, 10],
          Some (FloatTensor (map Float32 [31, 38, 45, 52, 101, 108, 115, 122, 129, 136]))),
      snd (get_data example_ext (example_tables True) ''cpu'' example_world))"
    using r by (metis prod.collapse)
  have g1: "read_config (example_tables False) =
     Inr (2, [PInt 5, PInt 7], [PInt 4, PInt 4], [PInt 2, PInt 3], PInt 2, False)"
    by code_simp
  have g2: "\<not> override_mode (example_tables False) (environ example_world) False"
    by code_simp
  have s: "fst (get_data example_ext (example_tables False) ''cpu'' example_world) =
     Inr (IntTensor [3, 0, 2, 4, 3, 3, 3, 3, 3, 3], IntTensor [0, 2, 4, 7, 10], None)"
    by code_simp
  have run2: "get_data example_ext (example_tables False) ''cpu'' example_world =
     (Inr (IntTensor [3, 0, 2, 4, 3, 3, 3, 3, 3, 3], IntTensor [0, 2, 4, 7, 10], None),
      snd (get_data example_ext (example_tables False) ''cpu'' example_world))"
    using s by (metis prod.collapse)
  show ?thesis
    using generated_weights [OF h1 h2 run] generated_weights [OF g1 g2 run2] h1 h2 r g1 g2 s
    by blast
qed

section \<open>The range of the indices of each table\<close>

lemma table_loop_indices:
  assumes "table_loop x dst (PInt B) weighted (map PInt Ls) (map PInt Es) ixs st w = (Inr st', w')"
    and "to_float x dst = Inr alpha"
    and "\<forall>i \<in> set ixs. i < length Ls \<longrightarrow> 1 \<le> Ls ! i"
    and "\<forall>i \<in> set ixs. i < length Es \<longrightarrow> 1 \<le> Es ! i \<and> Es ! i < 2 ^ 63"
  shows "\<exists>news. indices_list st' = indices_list st @ news \<and>
           list_all2 (\<lambda>i inds. length inds = nat (B * Ls ! i) \<and>
               (\<forall>v \<in> set inds.
                  0 \<le> v \<and> v < (if float_eq alpha 0 then Ls ! i else Es ! i))) ixs news"
  using assms
proof (induction ixs arbitrary: st w)
  case Nil
  then show ?case by simp
next
  case (Cons i ixs)
  let ?P = "\<lambda>i inds. length inds = nat (B * Ls ! i) \<and>
               (\<forall>v \<in> set inds.
                  0 \<le> v \<and> v < (if float_eq alpha 0 then Ls ! i else Es ! i))"
  from table_loop_Cons_Inr[OF Cons.prems(1)] obtain st1 w1 where
    step: "table_step x dst (PInt B) weighted (map PInt Ls) (map PInt Es) i st w = (Inr st1, w1)" and
    rest: "table_loop x dst (PInt B) weighted (map PInt Ls) (map PInt Es) ixs st1 w1 = (Inr st', w')"
    by blast
  from table_step_Inr[OF step] obtain B' L E alpha' inds offs pw where
    f: "i < length (map PInt Ls)" "i < length (map PInt Es)"
      "as_int (map PInt Ls ! i) = Inr L" "as_int (map PInt Es ! i) = Inr E"
      "to_float x dst = Inr alpha'"
      "generate_requests B' L E (offset_start st) alpha' weighted w = (Inr (inds, offs, pw), w1)"
      "indices_list st1 = indices_list st @ [inds]"
      "as_int (PInt B) = Inr B'"
    by blast
  have i: "i < length Ls" "i < length Es" using f(1,2) by simp_all
  have L: "L = Ls ! i" and E: "E = Es ! i" using f(3,4) i by simp_all
  have B': "B' = B" using f(8) by simp
  have a: "alpha' = alpha" using f(5) Cons.prems(2) by simp
  have L1: "1 \<le> L" and E1: "1 \<le> E" "E < 2 ^ 63" using Cons.prems(3,4) i L E by simp_all
  from generate_requests_Inr(1)[OF f(6)] obtain wa wb where
    s: "sample_indices B L E alpha wa = (Inr inds, wb)" unfolding a B' by blast
  have len: "length inds = nat (B * Ls ! i)" using sample_indices_Inr(1)[OF s] L by simp
  have "\<forall>v \<in> set inds. 0 \<le> v \<and> v < (if float_eq alpha 0 then Ls ! i else Es ! i)"
  proof (cases "float_eq alpha 0")
    case True
    then show ?thesis using sample_indices_range(1)[OF s True L1] L by simp
  next
    case False
    then show ?thesis using sample_indices_range(2)[OF s False E1] E by simp
  qed
  then have P: "?P i inds" using len by blast
  have "\<forall>i \<in> set ixs. i < length Ls \<longrightarrow> 1 \<le> Ls ! i"
    "\<forall>i \<in> set ixs. i < length Es \<longrightarrow> 1 \<le> Es ! i \<and> Es ! i < 2 ^ 63"
    using Cons.prems(3,4) by simp_all
  from Cons.IH[OF rest Cons.prems(2) this] obtain news where
    n: "indices_list st' = indices_list st1 @ news" "list_all2 ?P ixs news"
    by blast
  have "indices_list st' = indices_list st @ (inds # news) \<and> list_all2 ?P (i # ixs) (inds # news)"
    using n f(7) P by simp
  then show ?case by blast
qed

text \<open>
  Claim C2, as amended. In generation mode, with pooling factors of at least 1 and table
  sizes of at least 1 that are \<open>int64\<close> values (below \<open>2^63\<close>), every batch that
  \<open>get_data\<close> returns is the concatenation, in table order, of one index sequence per
  table, the sequence of table \<open>i\<close> having \<open>B * L_i\<close> elements, and every index of
  table \<open>i\<close> lies in \<open>[0, rows_i)\<close> when the skew is not 0, and in \<open>[0, L_i)\<close>,
  \<open>L_i\<close> the pooling factor of the table, when the skew is 0.
\<close>

theorem generated_indices_in_range:
  assumes "read_config cfg = Inr (num_tables, map PInt Es, dims, map PInt Ls, PInt B, weighted)"
    and "\<not> override_mode cfg (environ w) weighted"
    and "to_float x (environ w ''split_embedding_distribution'') = Inr alpha"
    and "\<forall>E \<in> set (take (nat num_tables) Es). 1 \<le> E \<and> E < 2 ^ 63"
    and "\<forall>L \<in> set (take (nat num_tables) Ls). 1 \<le> L"
    and "get_data x cfg dev w = (Inr (indices, offsets, weights), w')"
  shows "\<exists>per_table. indices = IntTensor (concat per_table) \<and>
           length per_table = nat num_tables \<and>
           (\<forall>i < nat num_tables.
              length (per_table ! i) = nat (B * Ls ! i) \<and>
              (\<forall>v \<in> set (per_table ! i).
                 0 \<le> v \<and> v < (if float_eq alpha 0 then Ls ! i else Es ! i)))"
proof -
  let ?n = "nat num_tables"
  let ?P = "\<lambda>i inds. length inds = nat (B * Ls ! i) \<and>
               (\<forall>v \<in> set inds.
                  0 \<le> v \<and> v < (if float_eq alpha 0 then Ls ! i else Es ! i))"
  from get_data_generation[OF assms(1) assms(2) assms(6)] obtain st b' where
    loop: "table_loop x (environ w ''split_embedding_distribution'') (PInt B) weighted
             (map PInt Ls) (map PInt Es) [0..<?n] initial_lists w = (Inr st, w')" and
    cat: "concat_lists weighted st = Inr b'" and
    dev: "to_device weighted b' = Inr (indices, offsets, weights)"
    by blast
  obtain it ot pw where b': "b' = (it, ot, pw)" by (cases b')
  have it: "indices = IntTensor (concat (indices_list st))"
    using concat_lists_Inr(3)[OF cat[unfolded b']] to_device_Inr(1)[OF dev[unfolded b']]
    by simp
  have pL: "\<forall>i \<in> set [0..<?n]. i < length Ls \<longrightarrow> 1 \<le> Ls ! i"
  proof (intro ballI impI)
    fix i assume "i \<in> set [0..<?n]" "i < length Ls"
    then have "Ls ! i \<in> set (take ?n Ls)"
      by (auto simp: in_set_conv_nth intro!: exI[of _ i])
    then show "1 \<le> Ls ! i" using assms(5) by blast
  qed
  have pE: "\<forall>i \<in> set [0..<?n]. i < length Es \<longrightarrow> 1 \<le> Es ! i \<and> Es ! i < 2 ^ 63"
  proof (intro ballI impI)
    fix i assume "i \<in> set [0..<?n]" "i < length Es"
    then have "Es ! i \<in> set (take ?n Es)"
      by (auto simp: in_set_conv_nth intro!: exI[of _ i])
    then show "1 \<le> Es ! i \<and> Es ! i < 2 ^ 63" using assms(4) by blast
  qed
  from table_loop_indices[OF loop assms(3) pL pE] obtain news where
    n: "indices_list st = indices_list initial_lists @ news" "list_all2 ?P [0..<?n] news"
    by blast
  have eq: "indices_list st = news" using n(1) by (simp add: initial_lists_def)
  have len: "length news = ?n" using n(2) by (auto dest: list_all2_lengthD)
  have all: "\<forall>i < ?n. ?P i (news ! i)"
  proof (intro allI impI)
    fix i assume i: "i < ?n"
    have e: "[0..<?n] ! i = i" using i by simp
    from i have "?P ([0..<?n] ! i) (news ! i)"
      using n(2) len by (auto simp: list_all2_conv_all_nth)
    then show "?P i (news ! i)" unfolding e .
  qed
  show ?thesis
    by (rule exI[of _ news]) (use it eq len all in simp)
qed

theorem generated_indices_in_range_witness:
  "read_config (example_tables False) =
     Inr (2, map PInt [5, 7], [PInt 4, PInt 4], map PInt [2, 3], PInt 2, False) \<and>
   \<not> override_mode (example_tables False) (environ example_world) False \<and>
   to_float example_ext (environ example_world ''split_embedding_distribution'')
     = Inr (Finite 1) \<and>
   list_all (\<lambda>E. 1 \<le> E \<and> E < 2 ^ 63) (take (nat 2) [5, 7::int]) \<and>
   list_all (\<lambda>L. 1 \<le> L) (take (nat 2) [2, 3::int]) \<and>
   fst (get_data example_ext (example_tables False) ''cpu'' example_world) =
     Inr (IntTensor [3, 0, 2, 4, 3, 3, 3, 3, 3, 3], IntTensor [0, 2, 4, 7, 10], None) \<and>
   (\<exists>per_table. IntTensor [3, 0, 2, 4, 3, 3, 3, 3, 3, 3] = IntTensor (concat per_table) \<and>
      length per_table = nat 2 \<and>
      (\<forall>i < nat 2.
         length (per_table ! i) = nat (2 * [2, 3] ! i) \<and>
         (\<forall>v \<in> set (per_table ! i).
            0 \<le> v \<and> v < (if float_eq (Finite 1) 0 then [2, 3] ! i else [5, 7] ! i))))"
proof -
  have h1: "read_config (example_tables False) =
     Inr (2, map PInt [5, 7], [PInt 4, PInt 4], map PInt [2, 3], PInt 2, False)"
    by code_simp
  have h2: "\<not> override_mode (example_tables False) (environ example_world) False"
    by code_simp
  have h3: "to_float example_ext (environ example_world ''split_embedding_distribution'')
     = Inr (Finite 1)"
    by code_simp
  have h4: "\<forall>E \<in> set (take (nat 2) [5, 7::int]). 1 \<le> E \<and> E < 2 ^ 63" by simp
  have h5: "\<forall>L \<in> set (take (nat 2) [2, 3::int]). 1 \<le> L" by simp
  have h4': "list_all (\<lambda>E. 1 \<le> E \<and> E < 2 ^ 63) (take (nat 2) [5, 7::int])" by simp
  have h5': "list_all (\<lambda>L. 1 \<le> L) (take (nat 2) [2, 3::int])" by simp
  have r: "fst (get_data example_ext (example_tables False) ''cpu'' example_world) =
     Inr (IntTensor [3, 0, 2, 4, 3, 3, 3, 3, 3, 3], IntTensor [0, 2, 4, 7, 10], None)"
    by code_simp
  have run: "get_data example_ext (example_tables False) ''cpu'' example_world =
     (Inr (IntTensor [3, 0, 2, 4, 3, 3, 3, 3, 3, 3], IntTensor [0, 2, 4, 7, 10], None),
      snd (get_data example_ext (example_tables False) ''cpu'' example_world))"
    using r by (metis prod.collapse)
  show ?thesis
    using generated_indices_in_range [OF h1 h2 h3 h4 h5 run] h1 h2 h3 h4' h5' r by blast
qed

text \<open>
  With the skew 0 a table of 2 rows and pooling factor 3 receives the index 2; with the
  skew 0.25 a table of \<open>2^63\<close> rows receives a negative index.
\<close>

theorem generated_indices_counterexample:
  "read_config example_small_table = Inr (1, [PInt 2], [PInt 4], [PInt 3], PInt 1, False) \<and>
   \<not> override_mode example_small_table (environ example_world_linear) False \<and>
   to_float example_ext (environ example_world_linear ''split_embedding_distribution'')
     = Inr (Finite 0) \<and>
   fst (get_data example_ext example_small_table ''cpu'' example_world_linear) =
     Inr (IntTensor [0, 1, 2], IntTensor [0, 3], None) \<and>
   \<not> ([0, 1, 2::int] ! 2 < 2) \<and>
   read_config example_huge_table =
     Inr (1, [PInt (2 ^ 63)], [PInt 4], [PInt 2], PInt 1, False) \<and>
   \<not> override_mode example_huge_table (environ example_world_quarter) False \<and>
   to_float example_ext (environ example_world_quarter ''split_embedding_distribution'')
     = Inr (Finite (1 / 4)) \<and>
   fst (get_data example_ext example_huge_table ''cpu'' example_world_quarter) =
     Inr (IntTensor [0, 1 - 2 ^ 63], IntTensor [0, 2], None) \<and>
   \<not> (0 \<le> [0, 1 - 2 ^ 63 :: int] ! 1)"
proof (intro conjI)
  show "read_config example_small_table = Inr (1, [PInt 2], [PInt 4], [PInt 3], PInt 1, False)"
    by code_simp
  show "\<not> override_mode example_small_table (environ example_world_linear) False"
    by code_simp
  show "to_float example_ext (environ example_world_linear ''split_embedding_distribution'')
     = Inr (Finite 0)"
    by code_simp
  show "fst (get_data example_ext example_small_table ''cpu'' example_world_linear) =
     Inr (IntTensor [0, 1, 2], IntTensor [0, 3], None)"
    by code_simp
  show "\<not> ([0, 1, 2::int] ! 2 < 2)" by simp
  show "read_config example_huge_table =
     Inr (1, [PInt (2 ^ 63)], [PInt 4], [PInt 2], PInt 1, False)"
    by code_simp
  show "\<not> override_mode example_huge_table (environ example_world_quarter) False"
    by code_simp
  show "to_float example_ext (environ example_world_quarter ''split_embedding_distribution'')
     = Inr (Finite (1 / 4))"
    by code_simp
  show "fst (get_data example_ext example_huge_table ''cpu'' example_world_quarter) =
     Inr (IntTensor [0, 1 - 2 ^ 63], IntTensor [0, 2], None)"
    by code_simp
  show "\<not> (0 \<le> [0, 1 - 2 ^ 63 :: int] ! 1)" by simp
qed

section \<open>The chaining of \<open>offset_start\<close>\<close>

lemma table_loop_chain:
  assumes "table_loop x dst (PInt B) weighted (map PInt Ls) rows ixs st w = (Inr st', w')"
  shows "\<exists>news calls.
           offsets_list st' = offsets_list st @ news \<and> trace w' = trace w @ calls \<and>
           length news = length ixs \<and> length calls = length ixs \<and>
           (\<forall>k < length ixs.
              (\<exists>E alpha. calls ! k =
                 GenerateRequests B (Ls ! (ixs ! k)) E
                   (if k = 0 then offset_start st else last (news ! (k - 1))) alpha weighted) \<and>
              make_offsets B (Ls ! (ixs ! k))
                (if k = 0 then offset_start st else last (news ! (k - 1))) = Inr (news ! k))"
  using assms
proof (induction ixs arbitrary: st w)
  case Nil
  then show ?case by simp
next
  case (Cons i ixs)
  from table_loop_Cons_Inr[OF Cons.prems(1)] obtain st1 w1 where
    step: "table_step x dst (PInt B) weighted (map PInt Ls) rows i st w = (Inr st1, w1)" and
    rest: "table_loop x dst (PInt B) weighted (map PInt Ls) rows ixs st1 w1 = (Inr st', w')"
    by blast
  from table_step_Inr[OF step] obtain B' L E alpha inds offs pw where
    f: "i < length (map PInt Ls)" "as_int (PInt B) = Inr B'"
      "as_int (map PInt Ls ! i) = Inr L"
      "generate_requests B' L E (offset_start st) alpha weighted w = (Inr (inds, offs, pw), w1)"
      "offsets_list st1 = offsets_list st @ [offs]"
      "offset_start st1 = last offs"
    by blast
  have B': "B' = B" using f(2) by simp
  have L: "L = Ls ! i" using f(1,3) by simp
  note g = generate_requests_Inr[OF f(4)[unfolded B' L]]
  let ?ev = "GenerateRequests B (Ls ! i) E (offset_start st) alpha weighted"
  from Cons.IH[OF rest] obtain news calls where
    n: "offsets_list st' = offsets_list st1 @ news" "trace w' = trace w1 @ calls"
      "length news = length ixs" "length calls = length ixs" and
    a: "\<forall>k < length ixs.
              (\<exists>E alpha. calls ! k =
                 GenerateRequests B (Ls ! (ixs ! k)) E
                   (if k = 0 then offset_start st1 else last (news ! (k - 1))) alpha weighted) \<and>
              make_offsets B (Ls ! (ixs ! k))
                (if k = 0 then offset_start st1 else last (news ! (k - 1))) = Inr (news ! k)"
    by blast
  let ?news = "offs # news" and ?calls = "?ev # calls"
  have 1: "offsets_list st' = offsets_list st @ ?news" using n(1) f(5) by simp
  have 2: "trace w' = trace w @ ?calls" using n(2) g(5) by simp
  have 3: "length ?news = length (i # ixs)" "length ?calls = length (i # ixs)"
    using n(3,4) by simp_all
  have 4: "(\<exists>E alpha. ?calls ! k =
                 GenerateRequests B (Ls ! ((i # ixs) ! k)) E
                   (if k = 0 then offset_start st else last (?news ! (k - 1))) alpha weighted) \<and>
              make_offsets B (Ls ! ((i # ixs) ! k))
                (if k = 0 then offset_start st else last (?news ! (k - 1))) = Inr (?news ! k)"
    if k: "k < length (i # ixs)" for k
  proof (cases k)
    case 0
    then show ?thesis using g(2) by auto
  next
    case (Suc j)
    then have j: "j < length ixs" using k by simp
    have s: "(if j = 0 then offset_start st1 else last (news ! (j - 1))) = last (?news ! j)"
      using f(6) by (cases j) simp_all
    from a j have
      "(\<exists>E alpha. calls ! j =
                 GenerateRequests B (Ls ! (ixs ! j)) E
                   (if j = 0 then offset_start st1 else last (news ! (j - 1))) alpha weighted) \<and>
              make_offsets B (Ls ! (ixs ! j))
                (if j = 0 then offset_start st1 else last (news ! (j - 1))) = Inr (news ! j)"
      by blast
    then show ?thesis unfolding s using Suc by simp
  qed
  show ?case
    by (rule exI[of _ ?news], rule exI[of _ ?calls]) (use 1 2 3 4 in blast)
qed

lemma make_offsets_last_pos:
  assumes "make_offsets B L off = Inr offs" "1 \<le> B" "1 \<le> L" "0 \<le> off"
  shows "0 < last offs"
proof (cases "off = 0")
  case True
  then have "offs = cumsum (0 # replicate (nat B) L)"
    using make_offsets_Inr(2)[OF assms(1)] by simp
  from first_offsets(4)[OF assms(2,3) this] show ?thesis using assms(2,3) by simp
next
  case False
  then have "offs = map (\<lambda>c. off + c) (cumsum (replicate (nat B) L))"
    using make_offsets_Inr(2)[OF assms(1)] by simp
  from next_offsets(4)[OF assms(2,3) this] have "last offs = off + B * L" .
  moreover have "0 < B * L" using assms(2,3) by simp
  ultimately show ?thesis using assms(4) by linarith
qed

lemma table_loop_offsets_chain:
  assumes "table_loop x dst (PInt B) weighted (map PInt Ls) rows [0..<n] initial_lists w
             = (Inr st, w')"
  shows "length (offsets_list st) = n \<and>
         (\<exists>calls. trace w' = trace w @ calls \<and> length calls = n \<and>
            (\<forall>k < n.
               (let start = (if k = 0 then 0 else last (offsets_list st ! (k - 1))) in
                (\<exists>E alpha. calls ! k = GenerateRequests B (Ls ! k) E start alpha weighted) \<and>
                offsets_list st ! k =
                  (if start = 0 then cumsum (0 # replicate (nat B) (Ls ! k))
                   else map (\<lambda>c. start + c) (cumsum (replicate (nat B) (Ls ! k)))) \<and>
                (0 < k \<and> 1 \<le> B \<and> (\<forall>j < k. 1 \<le> Ls ! j) \<longrightarrow> start \<noteq> 0))))"
proof -
  let ?start = "\<lambda>k. if k = 0 then 0 else last (offsets_list st ! (k - 1))"
  from table_loop_chain[OF assms] obtain news calls where
    n: "offsets_list st = offsets_list initial_lists @ news"
      "trace w' = trace w @ calls" "length news = length [0..<n]"
      "length calls = length [0..<n]" and
    a: "\<forall>k < length [0..<n].
              (\<exists>E alpha. calls ! k =
                 GenerateRequests B (Ls ! ([0..<n] ! k)) E
                   (if k = 0 then offset_start initial_lists else last (news ! (k - 1)))
                   alpha weighted) \<and>
              make_offsets B (Ls ! ([0..<n] ! k))
                (if k = 0 then offset_start initial_lists else last (news ! (k - 1)))
                = Inr (news ! k)"
    by blast
  have eq: "offsets_list st = news" using n(1) by (simp add: initial_lists_def)
  have len: "length (offsets_list st) = n" "length calls = n" using n(3,4) eq by simp_all
  have call: "\<exists>E alpha. calls ! k = GenerateRequests B (Ls ! k) E (?start k) alpha weighted"
    and mk: "make_offsets B (Ls ! k) (?start k) = Inr (offsets_list st ! k)"
    if k: "k < n" for k
  proof -
    have e: "[0..<n] ! k = k" using k by simp
    have s: "(if k = 0 then offset_start initial_lists else last (news ! (k - 1))) = ?start k"
      by (simp add: initial_lists_def eq)
    from a k have
      "(\<exists>E alpha. calls ! k =
                 GenerateRequests B (Ls ! ([0..<n] ! k)) E
                   (if k = 0 then offset_start initial_lists else last (news ! (k - 1)))
                   alpha weighted) \<and>
              make_offsets B (Ls ! ([0..<n] ! k))
                (if k = 0 then offset_start initial_lists else last (news ! (k - 1)))
                = Inr (news ! k)"
      by simp
    then show "\<exists>E alpha. calls ! k = GenerateRequests B (Ls ! k) E (?start k) alpha weighted"
      and "make_offsets B (Ls ! k) (?start k) = Inr (offsets_list st ! k)"
      unfolding e s eq by blast+
  qed
  have offs: "offsets_list st ! k =
                  (if ?start k = 0 then cumsum (0 # replicate (nat B) (Ls ! k))
                   else map (\<lambda>c. ?start k + c) (cumsum (replicate (nat B) (Ls ! k))))"
    if k: "k < n" for k
    using make_offsets_Inr(2)[OF mk[OF k]] .
  have pos: "0 < last (offsets_list st ! k)"
    if "k < n" "1 \<le> B" "\<forall>j \<le> k. 1 \<le> Ls ! j" for k
    using that
  proof (induction k)
    case 0
    from make_offsets_last_pos[OF mk[OF 0(1)] 0(2)] 0(3) show ?case by simp
  next
    case (Suc k)
    have "0 < last (offsets_list st ! k)" using Suc by simp
    then have "0 \<le> ?start (Suc k)" by simp
    from make_offsets_last_pos[OF mk[OF Suc(2)] Suc(3) _ this] Suc(4) show ?case by blast
  qed
  have nz: "?start k \<noteq> 0" if "k < n" "0 < k" "1 \<le> B" "\<forall>j < k. 1 \<le> Ls ! j" for k
  proof -
    have "k - 1 < n" "\<forall>j \<le> k - 1. 1 \<le> Ls ! j" using that by auto
    from pos[OF this(1) that(3) this(2)] show ?thesis using that(2) by simp
  qed
  have body: "(let start = ?start k in
                (\<exists>E alpha. calls ! k = GenerateRequests B (Ls ! k) E start alpha weighted) \<and>
                offsets_list st ! k =
                  (if start = 0 then cumsum (0 # replicate (nat B) (Ls ! k))
                   else map (\<lambda>c. start + c) (cumsum (replicate (nat B) (Ls ! k)))) \<and>
                (0 < k \<and> 1 \<le> B \<and> (\<forall>j < k. 1 \<le> Ls ! j) \<longrightarrow> start \<noteq> 0))"
    if k: "k < n" for k
    unfolding Let_def using call[OF k] offs[OF k] nz[OF k] by blast
  show ?thesis
    using len(1) n(2) len(2) body by blast
qed

lemma cumsum_leading_zero: "cumsum (0 # xs) = 0 # cumsum xs"
  by (simp add: cumsum_def)

text \<open>
  Claim C4. In the loop of generation mode over \<open>n\<close> tables, with a batch size of at
  least 1 and pooling factors of at least 1, the sampler is called once per table, in
  order. The first call receives \<open>offset_start = 0\<close>, and the offsets of the first table
  are the cumulative sums of its bag lengths with a leading zero prepended. The call for
  every later table receives the last element of the offsets of the table before it, and
  every element of the offsets of that table is the plain cumulative sum of its bag
  lengths shifted by exactly that \<open>offset_start\<close>.
\<close>

theorem offset_chaining:
  assumes "table_loop x dst (PInt B) weighted (map PInt Ls) rows [0..<n] initial_lists w
             = (Inr st, w')"
    and "1 \<le> B" and "\<forall>j < n. 1 \<le> Ls ! j"
  shows "length (offsets_list st) = n \<and>
         (\<exists>calls. trace w' = trace w @ calls \<and> length calls = n \<and>
            (\<forall>k < n.
               (\<exists>E alpha. calls ! k =
                  GenerateRequests B (Ls ! k) E
                    (if k = 0 then 0 else last (offsets_list st ! (k - 1))) alpha weighted) \<and>
               offsets_list st ! k =
                 (if k = 0 then 0 # cumsum (replicate (nat B) (Ls ! k))
                  else map (\<lambda>c. last (offsets_list st ! (k - 1)) + c)
                         (cumsum (replicate (nat B) (Ls ! k))))))"
proof -
  let ?start = "\<lambda>k. if k = 0 then 0 else last (offsets_list st ! (k - 1))"
  from table_loop_offsets_chain[OF assms(1)] obtain calls where
    len: "length (offsets_list st) = n" and
    c: "trace w' = trace w @ calls" "length calls = n" and
    a: "\<forall>k < n.
               (let start = ?start k in
                (\<exists>E alpha. calls ! k = GenerateRequests B (Ls ! k) E start alpha weighted) \<and>
                offsets_list st ! k =
                  (if start = 0 then cumsum (0 # replicate (nat B) (Ls ! k))
                   else map (\<lambda>c. start + c) (cumsum (replicate (nat B) (Ls ! k)))) \<and>
                (0 < k \<and> 1 \<le> B \<and> (\<forall>j < k. 1 \<le> Ls ! j) \<longrightarrow> start \<noteq> 0))"
    by blast
  have body: "(\<exists>E alpha. calls ! k =
                  GenerateRequests B (Ls ! k) E (?start k) alpha weighted) \<and>
               offsets_list st ! k =
                 (if k = 0 then 0 # cumsum (replicate (nat B) (Ls ! k))
                  else map (\<lambda>c. last (offsets_list st ! (k - 1)) + c)
                         (cumsum (replicate (nat B) (Ls ! k))))"
    if k: "k < n" for k
  proof -
    from a k have
      call: "\<exists>E alpha. calls ! k = GenerateRequests B (Ls ! k) E (?start k) alpha weighted" and
      offs: "offsets_list st ! k =
                  (if ?start k = 0 then cumsum (0 # replicate (nat B) (Ls ! k))
                   else map (\<lambda>c. ?start k + c) (cumsum (replicate (nat B) (Ls ! k))))" and
      nz: "0 < k \<and> 1 \<le> B \<and> (\<forall>j < k. 1 \<le> Ls ! j) \<longrightarrow> ?start k \<noteq> 0"
      unfolding Let_def by blast+
    show ?thesis
    proof (cases "k = 0")
      case True
      then show ?thesis using call offs by (simp add: cumsum_leading_zero)
    next
      case False
      have "\<forall>j < k. 1 \<le> Ls ! j" using assms(3) k by simp
      then have "?start k \<noteq> 0" using nz False assms(2) by blast
      then show ?thesis using call offs False by simp
    qed
  qed
  show ?thesis using len c body by blast
qed

theorem offset_chaining_witness:
  "fst (table_loop example_ext None (PInt 2) False (map PInt [2, 3]) [PInt 5, PInt 7] [0..<2]
          initial_lists example_world) =
     Inr \<lparr>indices_list = [[3, 0, 2, 4], [3, 3, 3, 3, 3, 3]],
          offsets_list = [[0, 2, 4], [7, 10]], per_sample_weights_list = [],
          offset_start = 10\<rparr> \<and>
   (1::int) \<le> 2 \<and> list_all (\<lambda>L. 1 \<le> L) [2, 3::int] \<and>
   (\<exists>calls.
      trace (snd (table_loop example_ext None (PInt 2) False (map PInt [2, 3])
                    [PInt 5, PInt 7] [0..<2] initial_lists example_world))
        = trace example_world @ calls \<and>
      length calls = 2 \<and>
      (\<forall>k < 2.
         (\<exists>E alpha. calls ! k =
            GenerateRequests 2 ([2, 3] ! k) E
              (if k = 0 then 0 else last ([[0, 2, 4], [7, 10]] ! (k - 1))) alpha False) \<and>
         [[0, 2, 4], [7, 10]] ! k =
           (if k = 0 then 0 # cumsum (replicate (nat 2) ([2, 3] ! k))
            else map (\<lambda>c. last ([[0, 2, 4], [7, 10]] ! (k - 1)) + c)
                   (cumsum (replicate (nat 2) ([2, 3] ! k))))))"
proof -
  let ?run = "table_loop example_ext None (PInt 2) False (map PInt [2, 3]) [PInt 5, PInt 7]
                [0..<2] initial_lists example_world"
  let ?st = "\<lparr>indices_list = [[3, 0, 2, 4], [3, 3, 3, 3, 3, 3]],
          offsets_list = [[0, 2, 4], [7, 10]], per_sample_weights_list = [],
          offset_start = 10\<rparr>"
  have r: "fst ?run = Inr ?st" by code_simp
  have run: "?run = (Inr ?st, snd ?run)" using r by (metis prod.collapse)
  have o: "offsets_list ?st = [[0, 2, 4], [7, 10]]" by simp
  have b: "(1::int) \<le> 2" by simp
  have l: "\<forall>j < 2. 1 \<le> [2, 3::int] ! j" by (simp add: less_Suc_eq numeral_2_eq_2)
  have l': "list_all (\<lambda>L. 1 \<le> L) [2, 3::int]" by simp
  show ?thesis
    using offset_chaining [OF run b l] r b l' unfolding o by blast
qed

section \<open>\<open>get_data\<close> in override mode\<close>

lemma torch_load_world:
  assumes "torch_load f w = (r, w')"
  shows "w' = w\<lparr>trace := trace w @ [TorchLoad f]\<rparr>"
  using assms by (auto simp: torch_load_def Let_def split: pyval.splits option.splits)

lemma torch_load_Inr:
  assumes "torch_load f w = (Inr t, w')"
  shows "\<exists>p. f = PStr p \<and> files w p = Some t"
  using assms by (auto simp: torch_load_def Let_def split: pyval.splits option.splits)

lemma torch_load_file:
  assumes "files w p = Some t"
  shows "torch_load (PStr p) w = (Inr t, w\<lparr>trace := trace w @ [TorchLoad (PStr p)]\<rparr>)"
  using assms by (simp add: torch_load_def Let_def)

lemma load_override_world:
  assumes "load_override i_f o_f w_f w = (r, w')"
  shows "torch_pos w' = torch_pos w" and "numpy_pos w' = numpy_pos w"
    and "\<exists>loads. trace w' = trace w @ loads \<and>
           prefix loads ([TorchLoad i_f, TorchLoad o_f] @
                         (if truthy w_f then [TorchLoad w_f] else []))"
proof -
  obtain r1 w1 where l1: "torch_load i_f w = (r1, w1)" by (cases "torch_load i_f w")
  obtain r2 w2 where l2: "torch_load o_f w1 = (r2, w2)" by (cases "torch_load o_f w1")
  obtain r3 w3 where l3: "torch_load w_f w2 = (r3, w3)" by (cases "torch_load w_f w2")
  note e1 = torch_load_world[OF l1] and e2 = torch_load_world[OF l2]
    and e3 = torch_load_world[OF l3]
  have w': "w' = w1 \<or> w' = w2 \<or> (w' = w3 \<and> truthy w_f)"
    using assms l1 l2 l3
    by (auto simp: load_override_def split: sum.splits if_splits)
  have t1: "trace w1 = trace w @ [TorchLoad i_f]" using e1 by simp
  have t2: "trace w2 = trace w @ [TorchLoad i_f, TorchLoad o_f]" using e1 e2 by simp
  have t3: "trace w3 = trace w @ [TorchLoad i_f, TorchLoad o_f, TorchLoad w_f]"
    using e1 e2 e3 by simp
  show "torch_pos w' = torch_pos w" using w' e1 e2 e3 by auto
  show "numpy_pos w' = numpy_pos w" using w' e1 e2 e3 by auto
  let ?all = "[TorchLoad i_f, TorchLoad o_f] @ (if truthy w_f then [TorchLoad w_f] else [])"
  from w' consider "w' = w1" | "w' = w2" | "w' = w3" "truthy w_f" by blast
  then show "\<exists>loads. trace w' = trace w @ loads \<and> prefix loads ?all"
  proof cases
    case 1
    have "prefix [TorchLoad i_f] ?all" by simp
    then show ?thesis using 1 t1 by blast
  next
    case 2
    have "prefix [TorchLoad i_f, TorchLoad o_f] ?all" by simp
    then show ?thesis using 2 t2 by blast
  next
    case 3
    have "prefix [TorchLoad i_f, TorchLoad o_f, TorchLoad w_f] ?all" using 3(2) by simp
    then show ?thesis using 3(1) t3 by blast
  qed
qed

lemma get_data_override:
  assumes "read_config cfg = Inr (num_tables, rows, dims, pfs, bs, weighted)"
    and "resolve_sources cfg (environ w) weighted = (i_f, o_f, w_f)"
    and "i_f \<noteq> PNone" and "o_f \<noteq> PNone"
  shows "get_data x cfg dev w =
     (if \<not> device_ok x dev then (Inl RuntimeError, w)
      else case load_override i_f o_f w_f w of
             (Inl e, w') \<Rightarrow> (Inl e, w')
           | (Inr b, w') \<Rightarrow> (to_device weighted b, w'))"
  using assms by (simp add: get_data_def Let_def)

lemma resolve_sources_weights:
  assumes "resolve_sources cfg env weighted = (i_f, o_f, w_f)" and "w_f \<noteq> PNone"
  shows "weighted \<and>
         ((args cfg ! 4) ''weights_tensor'' = Some w_f \<or>
          (\<exists>s. env ''split_embedding_weights'' = Some s \<and> w_f = PStr s))"
  using assms
  by (auto simp: resolve_sources_def Let_def getenv_def split: option.splits if_splits)

lemma override_mode_iff:
  "override_mode cfg env weighted \<longleftrightarrow>
     (\<exists>i_f o_f. (args cfg ! 4) ''indices_tensor'' = Some i_f \<and>
        (args cfg ! 4) ''offsets_tensor'' = Some o_f \<and> i_f \<noteq> PNone \<and> o_f \<noteq> PNone) \<or>
     (((args cfg ! 4) ''indices_tensor'' = None \<or> (args cfg ! 4) ''offsets_tensor'' = None) \<and>
      env ''split_embedding_indices'' \<noteq> None \<and> env ''split_embedding_offsets'' \<noteq> None)"
  by (auto simp: override_mode_def resolve_sources_def Let_def getenv_def split: option.splits)

text \<open>
  Claim C8, as amended. When axis 4 of the configuration carries both the indices key
  and the offsets key with values other than \<open>None\<close>, or lacks one of the two keys
  while the environment supplies both sources, a call of \<open>get_data\<close> leaves both
  random generators where they were and performs no call of \<open>generate_requests\<close>: the
  calls it adds to the trace are calls of \<open>torch.load\<close> only, an initial part of the
  loads of the indices file, the offsets file and, if there is one, the weights file.
  There is a weights file to load only when \<open>weighted\<close> is true and a weights source
  is present (on axis 4, or in the environment).
\<close>

theorem override_never_generates:
  assumes "read_config cfg = Inr (num_tables, rows, dims, pfs, bs, weighted)"
    and "(\<exists>i_f o_f. (args cfg ! 4) ''indices_tensor'' = Some i_f \<and>
            (args cfg ! 4) ''offsets_tensor'' = Some o_f \<and> i_f \<noteq> PNone \<and> o_f \<noteq> PNone) \<or>
         (((args cfg ! 4) ''indices_tensor'' = None \<or>
           (args cfg ! 4) ''offsets_tensor'' = None) \<and>
          environ w ''split_embedding_indices'' \<noteq> None \<and>
          environ w ''split_embedding_offsets'' \<noteq> None)"
    and "get_data x cfg dev w = (r, w')"
  shows "torch_pos w' = torch_pos w \<and> numpy_pos w' = numpy_pos w \<and>
         (\<exists>loads. trace w' = trace w @ loads \<and>
            (\<forall>e \<in> set loads. \<exists>f. e = TorchLoad f) \<and>
            (case resolve_sources cfg (environ w) weighted of
               (indices_file, offsets_file, weights_file) \<Rightarrow>
                 prefix loads
                   ([TorchLoad indices_file, TorchLoad offsets_file] @
                    (if truthy weights_file then [TorchLoad weights_file] else [])) \<and>
                 (truthy weights_file \<longrightarrow>
                    weighted \<and>
                    ((args cfg ! 4) ''weights_tensor'' = Some weights_file \<or>
                     (\<exists>s. environ w ''split_embedding_weights'' = Some s \<and>
                          weights_file = PStr s)))))"
proof -
  have ov: "override_mode cfg (environ w) weighted"
    using assms(2) by (simp only: override_mode_iff)
  obtain i_f o_f w_f where rs: "resolve_sources cfg (environ w) weighted = (i_f, o_f, w_f)"
    by (cases "resolve_sources cfg (environ w) weighted")
  have ne: "i_f \<noteq> PNone" "o_f \<noteq> PNone" using ov rs by (simp_all add: override_mode_def)
  note gd = get_data_override[OF assms(1) rs ne, of x dev]
  let ?all = "[TorchLoad i_f, TorchLoad o_f] @ (if truthy w_f then [TorchLoad w_f] else [])"
  have wts: "truthy w_f \<longrightarrow>
                    weighted \<and>
                    ((args cfg ! 4) ''weights_tensor'' = Some w_f \<or>
                     (\<exists>s. environ w ''split_embedding_weights'' = Some s \<and> w_f = PStr s))"
  proof
    assume "truthy w_f"
    then have "w_f \<noteq> PNone" by auto
    from resolve_sources_weights[OF rs this] show "weighted \<and>
                    ((args cfg ! 4) ''weights_tensor'' = Some w_f \<or>
                     (\<exists>s. environ w ''split_embedding_weights'' = Some s \<and> w_f = PStr s))" .
  qed
  have main: "torch_pos w' = torch_pos w \<and> numpy_pos w' = numpy_pos w \<and>
         (\<exists>loads. trace w' = trace w @ loads \<and> prefix loads ?all)"
  proof (cases "device_ok x dev")
    case False
    then have "w' = w" using gd assms(3) by simp
    then show ?thesis by simp
  next
    case True
    obtain r1 w1 where lo: "load_override i_f o_f w_f w = (r1, w1)"
      by (cases "load_override i_f o_f w_f w")
    have "w' = w1" using gd assms(3) True lo by (cases r1) auto
    then show ?thesis using load_override_world[OF lo] by simp
  qed
  then obtain loads where l: "trace w' = trace w @ loads" "prefix loads ?all" by blast
  have "set loads \<subseteq> set ?all" using l(2) by (rule set_mono_prefix)
  then have only: "\<forall>e \<in> set loads. \<exists>f. e = TorchLoad f" by auto
  have "\<exists>loads. trace w' = trace w @ loads \<and>
            (\<forall>e \<in> set loads. \<exists>f. e = TorchLoad f) \<and>
            (prefix loads ?all \<and>
                 (truthy w_f \<longrightarrow>
                    weighted \<and>
                    ((args cfg ! 4) ''weights_tensor'' = Some w_f \<or>
                     (\<exists>s. environ w ''split_embedding_weights'' = Some s \<and> w_f = PStr s))))"
    using l only wts by blast
  then show ?thesis using main by (simp only: rs prod.case)
qed

theorem override_never_generates_witness:
  "read_config example_override_weights = Inr (1, [PInt 10], [PInt 4], [PInt 3], PInt 1, True) \<and>
   (args example_override_weights ! 4) ''indices_tensor'' = Some (PStr ''i.pt'') \<and>
   (args example_override_weights ! 4) ''offsets_tensor'' = Some (PStr ''o.pt'') \<and>
   fst (get_data example_ext example_override_weights ''cpu'' example_world_files) =
     Inr (IntTensor [0, 1, 2], IntTensor [0, 3],
          Some (FloatTensor [Float32 1, Float32 2, Float32 3])) \<and>
   trace (snd (get_data example_ext example_override_weights ''cpu'' example_world_files)) =
     [TorchLoad (PStr ''i.pt''), TorchLoad (PStr ''o.pt''), TorchLoad (PStr ''w.pt'')] \<and>
   torch_pos (snd (get_data example_ext example_override_weights ''cpu'' example_world_files))
     = torch_pos example_world_files \<and>
   numpy_pos (snd (get_data example_ext example_override_weights ''cpu'' example_world_files))
     = numpy_pos example_world_files \<and>
   (\<exists>loads.
      trace (snd (get_data example_ext example_override_weights ''cpu'' example_world_files))
        = trace example_world_files @ loads \<and>
      (\<forall>e \<in> set loads. \<exists>f. e = TorchLoad f) \<and>
      (case resolve_sources example_override_weights (environ example_world_files) True of
         (indices_file, offsets_file, weights_file) \<Rightarrow>
           prefix loads
             ([TorchLoad indices_file, TorchLoad offsets_file] @
              (if truthy weights_file then [TorchLoad weights_file] else [])) \<and>
           (truthy weights_file \<longrightarrow>
              True \<and>
              ((args example_override_weights ! 4) ''weights_tensor'' = Some weights_file \<or>
               (\<exists>s. environ example_world_files ''split_embedding_weights'' = Some s \<and>
                    weights_file = PStr s)))))"
proof -
  let ?run = "get_data example_ext example_override_weights ''cpu'' example_world_files"
  have h1: "read_config example_override_weights =
              Inr (1, [PInt 10], [PInt 4], [PInt 3], PInt 1, True)"
    by code_simp
  have i: "(args example_override_weights ! 4) ''indices_tensor'' = Some (PStr ''i.pt'')"
    by code_simp
  have o: "(args example_override_weights ! 4) ''offsets_tensor'' = Some (PStr ''o.pt'')"
    by code_simp
  have h2: "(\<exists>i_f o_f. (args example_override_weights ! 4) ''indices_tensor'' = Some i_f \<and>
            (args example_override_weights ! 4) ''offsets_tensor'' = Some o_f \<and>
            i_f \<noteq> PNone \<and> o_f \<noteq> PNone) \<or>
         (((args example_override_weights ! 4) ''indices_tensor'' = None \<or>
           (args example_override_weights ! 4) ''offsets_tensor'' = None) \<and>
          environ example_world_files ''split_embedding_indices'' \<noteq> None \<and>
          environ example_world_files ''split_embedding_offsets'' \<noteq> None)"
    using i o by blast
  have r: "fst ?run = Inr (IntTensor [0, 1, 2], IntTensor [0, 3],
          Some (FloatTensor [Float32 1, Float32 2, Float32 3]))"
    by code_simp
  have t: "trace (snd ?run) =
     [TorchLoad (PStr ''i.pt''), TorchLoad (PStr ''o.pt''), TorchLoad (PStr ''w.pt'')]"
    by code_simp
  have run: "?run = (fst ?run, snd ?run)" by simp
  show ?thesis
    using override_never_generates [OF h1 h2 run] h1 i o r t by blast
qed

text \<open>
  The environment is read only when axis 4 lacks one of the two keys: with both keys on
  axis 4, the one of the indices with the value \<open>None\<close>, \<open>get_data\<close> generates the
  batch although the environment supplies both sources.
\<close>

theorem override_never_generates_counterexample:
  "read_config example_override_null = Inr (1, [PInt 10], [PInt 4], [PInt 3], PInt 1, True) \<and>
   (args example_override_null ! 4) ''indices_tensor'' = Some PNone \<and>
   (args example_override_null ! 4) ''offsets_tensor'' = Some (PStr ''o.pt'') \<and>
   environ example_world_env ''split_embedding_indices'' = Some ''i.pt'' \<and>
   environ example_world_env ''split_embedding_offsets'' = Some ''o.pt'' \<and>
   files example_world_env ''i.pt'' = Some (IntTensor [0, 1, 2]) \<and>
   files example_world_env ''o.pt'' = Some (IntTensor [0, 3]) \<and>
   fst (get_data example_ext example_override_null ''cpu'' example_world_env) =
     Inr (IntTensor [3, 0, 7], IntTensor [0, 3],
          Some (FloatTensor [Float32 24, Float32 31, Float32 38])) \<and>
   trace (snd (get_data example_ext example_override_null ''cpu'' example_world_env)) =
     [GenerateRequests 1 3 10 0 (Finite 1) True] \<and>
   torch_pos example_world_env = 0 \<and>
   torch_pos (snd (get_data example_ext example_override_null ''cpu'' example_world_env)) = 6"
proof (intro conjI)
  show "read_config example_override_null =
          Inr (1, [PInt 10], [PInt 4], [PInt 3], PInt 1, True)"
    by code_simp
  show "(args example_override_null ! 4) ''indices_tensor'' = Some PNone" by code_simp
  show "(args example_override_null ! 4) ''offsets_tensor'' = Some (PStr ''o.pt'')"
    by code_simp
  show "environ example_world_env ''split_embedding_indices'' = Some ''i.pt''" by code_simp
  show "environ example_world_env ''split_embedding_offsets'' = Some ''o.pt''" by code_simp
  show "files example_world_env ''i.pt'' = Some (IntTensor [0, 1, 2])" by code_simp
  show "files example_world_env ''o.pt'' = Some (IntTensor [0, 3])" by code_simp
  show "fst (get_data example_ext example_override_null ''cpu'' example_world_env) =
     Inr (IntTensor [3, 0, 7], IntTensor [0, 3],
          Some (FloatTensor [Float32 24, Float32 31, Float32 38]))"
    by code_simp
  show "trace (snd (get_data example_ext example_override_null ''cpu'' example_world_env)) =
     [GenerateRequests 1 3 10 0 (Finite 1) True]"
    by code_simp
  show "torch_pos example_world_env = 0" by code_simp
  show "torch_pos (snd (get_data example_ext example_override_null ''cpu'' example_world_env))
          = 6"
    by code_simp
qed

text \<open>
  Claim C10. In override mode, with \<open>weighted\<close> true and no weights source (none on
  axis 4 and none in the environment), \<open>get_data\<close> raises: no weights file is
  resolved, and whenever the device is accepted and the indices and offsets files load,
  the exception is the \<open>AttributeError\<close> of \<open>None.to(target_device)\<close>; a batch with
  \<open>None\<close> weights is never returned.
\<close>

theorem override_weighted_without_weights_raises:
  assumes "read_config cfg = Inr (num_tables, rows, dims, pfs, bs, True)"
    and "(\<exists>i_f o_f. (args cfg ! 4) ''indices_tensor'' = Some i_f \<and>
            (args cfg ! 4) ''offsets_tensor'' = Some o_f \<and> i_f \<noteq> PNone \<and> o_f \<noteq> PNone) \<or>
         (((args cfg ! 4) ''indices_tensor'' = None \<or>
           (args cfg ! 4) ''offsets_tensor'' = None) \<and>
          environ w ''split_embedding_indices'' \<noteq> None \<and>
          environ w ''split_embedding_offsets'' \<noteq> None)"
    and "(args cfg ! 4) ''weights_tensor'' = None"
    and "environ w ''split_embedding_weights'' = None"
  shows "(\<exists>e. fst (get_data x cfg dev w) = Inl e) \<and>
         (case resolve_sources cfg (environ w) True of
            (indices_file, offsets_file, weights_file) \<Rightarrow>
              weights_file = PNone \<and>
              (\<forall>p q t u. device_ok x dev \<and> indices_file = PStr p \<and> offsets_file = PStr q \<and>
                   files w p = Some t \<and> files w q = Some u \<longrightarrow>
                 fst (get_data x cfg dev w) = Inl AttributeError))"
proof -
  have ov: "override_mode cfg (environ w) True"
    using assms(2) by (simp only: override_mode_iff)
  obtain i_f o_f w_f where rs: "resolve_sources cfg (environ w) True = (i_f, o_f, w_f)"
    by (cases "resolve_sources cfg (environ w) True")
  have ne: "i_f \<noteq> PNone" "o_f \<noteq> PNone" using ov rs by (simp_all add: override_mode_def)
  have wf: "w_f = PNone"
  proof (rule ccontr)
    assume "w_f \<noteq> PNone"
    from resolve_sources_weights[OF rs this] show False using assms(3,4) by auto
  qed
  note gd = get_data_override[OF assms(1) rs ne, of x dev]
  have lo: "load_override i_f o_f PNone w =
     (case torch_load i_f w of
        (Inl e, w1) \<Rightarrow> (Inl e, w1)
      | (Inr indices_tensor, w1) \<Rightarrow>
          (case torch_load o_f w1 of
             (Inl e, w2) \<Rightarrow> (Inl e, w2)
           | (Inr offsets_tensor, w2) \<Rightarrow> (Inr (indices_tensor, offsets_tensor, None), w2)))"
    by (simp add: load_override_def split: prod.splits sum.splits)
  have td: "to_device True (t, u, None) = Inl AttributeError" for t u
    by (simp add: to_device_def)
  have raises: "\<exists>e. fst (get_data x cfg dev w) = Inl e"
    unfolding gd wf lo
    by (auto simp: td split: prod.splits sum.splits)
  have attr: "fst (get_data x cfg dev w) = Inl AttributeError"
    if "device_ok x dev" "i_f = PStr p" "o_f = PStr q" "files w p = Some t" "files w q = Some u"
    for p q t u
  proof -
    have l1: "torch_load i_f w = (Inr t, w\<lparr>trace := trace w @ [TorchLoad (PStr p)]\<rparr>)"
      using that(2,4) by (simp add: torch_load_file)
    have "files (w\<lparr>trace := trace w @ [TorchLoad (PStr p)]\<rparr>) q = Some u"
      using that(5) by simp
    from torch_load_file[OF this] that(3) obtain w2 where
      l2: "torch_load o_f (w\<lparr>trace := trace w @ [TorchLoad (PStr p)]\<rparr>) = (Inr u, w2)"
      by simp
    show ?thesis unfolding gd wf lo using that(1) l1 l2 by (simp add: td)
  qed
  show ?thesis
    using raises attr wf by (simp only: rs prod.case) blast
qed

theorem override_weighted_without_weights_raises_witness:
  "read_config example_override_no_weights =
     Inr (1, [PInt 10], [PInt 4], [PInt 3], PInt 1, True) \<and>
   (args example_override_no_weights ! 4) ''indices_tensor'' = Some (PStr ''i.pt'') \<and>
   (args example_override_no_weights ! 4) ''offsets_tensor'' = Some (PStr ''o.pt'') \<and>
   (args example_override_no_weights ! 4) ''weights_tensor'' = None \<and>
   environ example_world_files ''split_embedding_weights'' = None \<and>
   resolve_sources example_override_no_weights (environ example_world_files) True =
     (PStr ''i.pt'', PStr ''o.pt'', PNone) \<and>
   device_ok example_ext ''cpu'' \<and>
   files example_world_files ''i.pt'' = Some (IntTensor [0, 1, 2]) \<and>
   files example_world_files ''o.pt'' = Some (IntTensor [0, 3]) \<and>
   fst (get_data example_ext example_override_no_weights ''cpu'' example_world_files)
     = Inl AttributeError"
proof -
  let ?cfg = example_override_no_weights and ?w = example_world_files
  have h1: "read_config ?cfg = Inr (1, [PInt 10], [PInt 4], [PInt 3], PInt 1, True)"
    by code_simp
  have i: "(args ?cfg ! 4) ''indices_tensor'' = Some (PStr ''i.pt'')" by code_simp
  have o: "(args ?cfg ! 4) ''offsets_tensor'' = Some (PStr ''o.pt'')" by code_simp
  have h2: "(\<exists>i_f o_f. (args ?cfg ! 4) ''indices_tensor'' = Some i_f \<and>
            (args ?cfg ! 4) ''offsets_tensor'' = Some o_f \<and> i_f \<noteq> PNone \<and> o_f \<noteq> PNone) \<or>
         (((args ?cfg ! 4) ''indices_tensor'' = None \<or>
           (args ?cfg ! 4) ''offsets_tensor'' = None) \<and>
          environ ?w ''split_embedding_indices'' \<noteq> None \<and>
          environ ?w ''split_embedding_offsets'' \<noteq> None)"
    using i o by blast
  have h3: "(args ?cfg ! 4) ''weights_tensor'' = None" by code_simp
  have h4: "environ ?w ''split_embedding_weights'' = None" by code_simp
  have rs: "resolve_sources ?cfg (environ ?w) True = (PStr ''i.pt'', PStr ''o.pt'', PNone)"
    by code_simp
  have d: "device_ok example_ext ''cpu''" by code_simp
  have f1: "files ?w ''i.pt'' = Some (IntTensor [0, 1, 2])" by code_simp
  have f2: "files ?w ''o.pt'' = Some (IntTensor [0, 3])" by code_simp
  from override_weighted_without_weights_raises [OF h1 h2 h3 h4, of example_ext "''cpu''"]
  have "\<forall>p q t u. device_ok example_ext ''cpu'' \<and> PStr ''i.pt'' = PStr p \<and>
          PStr ''o.pt'' = PStr q \<and> files ?w p = Some t \<and> files ?w q = Some u \<longrightarrow>
          fst (get_data example_ext ?cfg ''cpu'' ?w) = Inl AttributeError"
    by (simp only: rs prod.case) blast
  then have "fst (get_data example_ext ?cfg ''cpu'' ?w) = Inl AttributeError"
    using d f1 f2 by blast
  then show ?thesis using h1 i o h3 h4 rs d f1 f2 by blast
qed

section \<open>The build of the operator and the identifiers of the iterator\<close>

text \<open>
  Claim C9. When the device string of the operator starts neither with \<open>cpu\<close> nor with
  \<open>cuda\<close>, \<open>build\<close> raises a \<open>ValueError\<close> whose message ends with that device
  string, and the object is left as it was: no handle is installed, whatever the
  constructors of the library would have done and whatever the arguments are.
\<close>

theorem build_unknown_device:
  assumes "\<not> prefix ''cpu'' (self_device self)" and "\<not> prefix ''cuda'' (self_device self)"
  shows "build f num_tables rows dims location pooling weighted weights_precision optimizer self
           = (Some (ValueError (''Unknown compute device '' @ self_device self)), self)"
  using assms by (simp add: build_def split: prod.splits)

theorem build_unknown_device_witness:
  "\<not> prefix ''cpu'' (self_device example_operator) \<and>
   \<not> prefix ''cuda'' (self_device example_operator) \<and>
   build example_fbgemm (PInt 1) (PInt 10) (PInt 4) (PInt 0) (PInt 0) (PBool False)
     (PStr ''fp16'') (PStr ''sgd'') example_operator
     = (Some (ValueError (''Unknown compute device '' @ self_device example_operator)),
        example_operator) \<and>
   ''Unknown compute device '' @ self_device example_operator = ''Unknown compute device tpu'' \<and>
   self_op example_operator = None"
proof -
  have h1: "\<not> prefix ''cpu'' (self_device example_operator)"
    by (simp add: example_operator_def)
  have h2: "\<not> prefix ''cuda'' (self_device example_operator)"
    by (simp add: example_operator_def)
  have m: "''Unknown compute device '' @ self_device example_operator
             = ''Unknown compute device tpu''"
    by (simp add: example_operator_def)
  have n: "self_op example_operator = None" by (simp add: example_operator_def)
  show ?thesis
    using build_unknown_device [OF h1 h2, of example_fbgemm "PInt 1" "PInt 10" "PInt 4"
        "PInt 0" "PInt 0" "PBool False" "PStr ''fp16''" "PStr ''sgd''"] h1 h2 m n
    by blast
qed

lemma product_yields_var_id:
  "(i, c) \<in> set (fst (product_yields l self var_id config_id points))
     \<Longrightarrow> \<exists>k. i = format_id var_id k"
proof (induction points arbitrary: config_id)
  case Nil
  then show ?case by simp
next
  case (Cons p points)
  let ?pre = "ebind (get_item p 0) (\<lambda>batch_size.
           ebind (get_item p 1) (\<lambda>pooling_factor. Inr (batch_size, pooling_factor)))"
  show ?case
  proof (cases ?pre)
    case (Inl e)
    then show ?thesis using Cons.prems by simp
  next
    case (Inr bp)
    obtain b q where bp: "bp = (b, q)" by (cases bp)
    obtain ys err where r: "product_yields l self var_id (config_id + 1) points = (ys, err)"
      by (cases "product_yields l self var_id (config_id + 1) points")
    from Cons.prems Inr bp r
    have "i = format_id var_id config_id \<or> (i, c) \<in> set ys" by auto
    then show ?thesis
    proof
      assume "i = format_id var_id config_id"
      then show ?thesis by blast
    next
      assume "(i, c) \<in> set ys"
      then have "(i, c) \<in> set (fst (product_yields l self var_id (config_id + 1) points))"
        using r by simp
      then show ?thesis by (rule Cons.IH)
    qed
  qed
qed

lemma product_yields_var_id_eq:
  assumes "product_yields l self var_id config_id points = (ys, err)" and "(i, c) \<in> set ys"
  shows "\<exists>k. i = format_id var_id k"
  using product_yields_var_id[of i c l self var_id config_id points] assms by simp

lemma generator_loop_var_id:
  "(i, c) \<in> set (fst (generator_loop l self var_id inputs)) \<Longrightarrow> \<exists>k. i = format_id var_id k"
proof (induction inputs)
  case Nil
  then show ?case by simp
next
  case (Cons g inputs)
  then show ?case
    by (auto split: sum.splits prod.splits option.splits dest: product_yields_var_id_eq)
qed

lemma generator_var_id_zero:
  "(i, c) \<in> set (fst (generator l self)) \<Longrightarrow> \<exists>k. i = format_id 0 k"
  unfolding generator_def by (rule generator_loop_var_id)

text \<open>
  Claim C5, at the inputs that decide it. One input group with the batch sizes 32, 64
  and the pooling factors 4, 8 yields the four identifiers \<open>0_0\<close>, \<open>0_1\<close>, \<open>0_2\<close>,
  \<open>0_3\<close>, each once. Two input groups of one point each yield the identifier \<open>0_0\<close>
  twice: the second group is numbered 0 like the first, so the identifiers of one
  iterator are not distinct.
\<close>

theorem generator_identifiers:
  "map fst (fst (generator example_lib (example_iterator [example_product_group])))
     = [''0_0'', ''0_1'', ''0_2'', ''0_3''] \<and>
   snd (generator example_lib (example_iterator [example_product_group])) = None \<and>
   map fst (fst (generator example_lib
       (example_iterator [example_single_group 32 4, example_single_group 64 8])))
     = [''0_0'', ''0_0''] \<and>
   snd (generator example_lib
       (example_iterator [example_single_group 32 4, example_single_group 64 8])) = None"
proof (intro conjI)
  show "map fst (fst (generator example_lib (example_iterator [example_product_group])))
     = [''0_0'', ''0_1'', ''0_2'', ''0_3'']"
    by code_simp
  show "snd (generator example_lib (example_iterator [example_product_group])) = None"
    by code_simp
  show "map fst (fst (generator example_lib
       (example_iterator [example_single_group 32 4, example_single_group 64 8])))
     = [''0_0'', ''0_0'']"
    by code_simp
  show "snd (generator example_lib
       (example_iterator [example_single_group 32 4, example_single_group 64 8])) = None"
    by code_simp
qed

end
